theory Spec2Isabelle
  imports Complex_Main "HOL-Library.AList"
begin

text \<open>
  A shallow embedding of the orchestration core of the book factory: the task wrapper that
  all agents share, the provider registry with its fallback, the research agent, and the
  generation orchestrator with its two job tables. The definitions of all four come first,
  each next to the name of the source it follows; their properties are proved after them.
\<close>


section \<open>Agents: the task-execution wrapper and its metrics\<close>

text \<open>
  Source: \<^verbatim>\<open>app/agents/base_agent.py\<close> and \<^verbatim>\<open>app/models/agent.py\<close>.
  Python floats are idealised as exact rationals, a \<^verbatim>\<open>datetime\<close> is the number of
  seconds on some clock, and the two task counters, which start at 0 and are only ever
  incremented, are natural numbers.
\<close>

datatype AgentState = IDLE | WORKING | ERROR | MAINTENANCE

type_synonym datetime = rat

record AgentMetrics =
  tasks_completed :: nat
  tasks_failed :: nat
  average_task_duration :: "rat option"
  success_rate :: rat
  last_task_completed :: "datetime option"
  total_uptime :: "rat option"

definition AgentMetrics_default :: AgentMetrics where
  "AgentMetrics_default =
     \<lparr>tasks_completed = 0, tasks_failed = 0, average_task_duration = None,
      success_rate = 0, last_task_completed = None, total_uptime = None\<rparr>"

record BaseAgent =
  agent_name :: string
  state :: AgentState
  current_task :: "string option"
  current_task_progress :: int
  last_activity :: "datetime option"
  error_message :: "string option"
  metrics :: AgentMetrics
  start_time :: datetime

text \<open>\<^verbatim>\<open>BaseAgent.__init__\<close>; the second argument is the clock reading.\<close>

definition BaseAgent_init :: "string \<Rightarrow> datetime \<Rightarrow> BaseAgent" where
  "BaseAgent_init nm now =
     \<lparr>agent_name = nm, state = IDLE, current_task = None, current_task_progress = 0,
      last_activity = None, error_message = None, metrics = AgentMetrics_default,
      start_time = now\<rparr>"

text \<open>
  \<^verbatim>\<open>execute_task\<close> suspends inside \<^verbatim>\<open>process_task\<close>, so it is modelled in three
  pieces: the statements before the call, the success branch after it, and the
  \<^verbatim>\<open>except\<close> branch. \<^verbatim>\<open>task_start_time\<close> is a local of the call.
\<close>

definition begin_task :: "BaseAgent \<Rightarrow> string \<Rightarrow> datetime \<Rightarrow> BaseAgent" where
  "begin_task a task_id task_start_time =
     a\<lparr>state := WORKING, current_task := Some task_id, current_task_progress := 0,
       last_activity := Some task_start_time, error_message := None\<rparr>"

definition update_progress :: "BaseAgent \<Rightarrow> int \<Rightarrow> datetime \<Rightarrow> BaseAgent" where
  "update_progress a progress now =
     a\<lparr>current_task_progress := max 0 (min 100 progress), last_activity := Some now\<rparr>"

definition update_average :: "AgentMetrics \<Rightarrow> rat \<Rightarrow> AgentMetrics" where
  "update_average m task_duration =
     (case average_task_duration m of
        None \<Rightarrow> m\<lparr>average_task_duration := Some task_duration\<rparr>
      | Some avg \<Rightarrow>
          (let total_tasks = tasks_completed m + tasks_failed m
           in m\<lparr>average_task_duration :=
                  Some ((avg * of_nat (total_tasks - 1) + task_duration) / of_nat total_tasks)\<rparr>))"

definition finish_success :: "BaseAgent \<Rightarrow> datetime \<Rightarrow> datetime \<Rightarrow> BaseAgent" where
  "finish_success a task_start_time now =
     (let task_duration = now - task_start_time;
          m1 = (metrics a)\<lparr>tasks_completed := tasks_completed (metrics a) + 1,
                            last_task_completed := Some now\<rparr>;
          m2 = update_average m1 task_duration;
          total_tasks = tasks_completed m2 + tasks_failed m2;
          m3 = m2\<lparr>success_rate := of_nat (tasks_completed m2) / of_nat total_tasks\<rparr>
      in a\<lparr>metrics := m3, state := IDLE, current_task := None,
            current_task_progress := 100\<rparr>)"

definition finish_failure :: "BaseAgent \<Rightarrow> string \<Rightarrow> BaseAgent" where
  "finish_failure a e =
     (let m1 = (metrics a)\<lparr>tasks_failed := tasks_failed (metrics a) + 1\<rparr>;
          total_tasks = tasks_completed m1 + tasks_failed m1;
          m2 = m1\<lparr>success_rate :=
                    (if total_tasks > 0 then of_nat (tasks_completed m1) / of_nat total_tasks
                     else 0)\<rparr>
      in a\<lparr>metrics := m2, state := ERROR, error_message := Some e\<rparr>)"

text \<open>
  What one call of the abstract \<^verbatim>\<open>process_task\<close> does to the agent and returns: the
  \<^verbatim>\<open>update_progress\<close> calls it makes (the concrete agents touch the agent in no other
  way), then either an exception text or a result, and the clock reading at the end.
\<close>

record 'r task_run =
  progress_updates :: "(int \<times> datetime) list"
  outcome :: "string + 'r"
  finished_at :: datetime

datatype 'r task_result = TaskSucceeded 'r rat | TaskFailed string

definition execute_task ::
  "BaseAgent \<Rightarrow> string \<Rightarrow> datetime \<Rightarrow> 'r task_run \<Rightarrow> 'r task_result \<times> BaseAgent" where
  "execute_task a task_id task_start_time run =
     (let a1 = begin_task a task_id task_start_time;
          a2 = fold (\<lambda>(p, t) b. update_progress b p t) (progress_updates run) a1
      in case outcome run of
           Inr result \<Rightarrow>
             (TaskSucceeded result (finished_at run - task_start_time),
              finish_success a2 task_start_time (finished_at run))
         | Inl e \<Rightarrow> (TaskFailed e, finish_failure a2 e))"

text \<open>A sequence of task executions, one after the other, each with its own start time.\<close>

fun execute_tasks :: "BaseAgent \<Rightarrow> (string \<times> datetime \<times> 'r task_run) list \<Rightarrow> BaseAgent" where
  "execute_tasks a [] = a"
| "execute_tasks a ((task_id, t0, run) # rest) =
     execute_tasks (snd (execute_task a task_id t0 run)) rest"

text \<open>
  \<^verbatim>\<open>get_status\<close>. The returned \<^verbatim>\<open>AgentStatus\<close> is a validated model: its constructor
  rejects a progress outside 0..100 and a health score outside [0, 1].
\<close>

record AgentStatus =
  status_name :: string
  status_state :: AgentState
  status_current_task :: "string option"
  status_current_task_progress :: int
  status_last_activity :: "datetime option"
  status_error_message :: "string option"
  status_metrics :: AgentMetrics
  health_score :: rat

definition get_status :: "BaseAgent \<Rightarrow> datetime \<Rightarrow> (string + AgentStatus) \<times> BaseAgent" where
  "get_status a now =
     (let a1 = a\<lparr>metrics := (metrics a)\<lparr>total_uptime := Some (now - start_time a)\<rparr>\<rparr>;
          h0 = success_rate (metrics a1);
          h1 = (if state a1 = ERROR then h0 * 0.5 else h0);
          h2 = (case last_activity a1 of
                  None \<Rightarrow> h1
                | Some t \<Rightarrow> if now - t > 3600 then h1 * 0.8 else h1)
      in if 0 \<le> current_task_progress a1 \<and> current_task_progress a1 \<le> 100
            \<and> 0 \<le> h2 \<and> h2 \<le> 1
         then (Inr \<lparr>status_name = agent_name a1, status_state = state a1,
                     status_current_task = current_task a1,
                     status_current_task_progress = current_task_progress a1,
                     status_last_activity = last_activity a1,
                     status_error_message = error_message a1,
                     status_metrics = metrics a1, health_score = h2\<rparr>, a1)
         else (Inl ''ValidationError'', a1))"

definition reset :: "BaseAgent \<Rightarrow> datetime \<Rightarrow> BaseAgent" where
  "reset a now =
     a\<lparr>state := IDLE, current_task := None, current_task_progress := 0,
       error_message := None, last_activity := Some now\<rparr>"

text \<open>The \<^verbatim>\<open>except\<close> branch of \<^verbatim>\<open>health_check\<close>, taken when the probe completion fails.\<close>

definition health_check_failed :: "BaseAgent \<Rightarrow> string \<Rightarrow> BaseAgent" where
  "health_check_failed a e =
     a\<lparr>state := ERROR, error_message := Some (''Health check failed: '' @ e)\<rparr>"

text \<open>
  Everything that can happen to one agent, at the granularity of the event loop: tasks of
  several jobs that share the agent interleave between their suspension points.
\<close>

datatype agent_event =
    Begin string datetime
  | Progress int datetime
  | FinishOk datetime datetime
  | FinishErr string
  | Reset datetime
  | HealthCheckFailed string
  | GetStatus datetime

fun agent_step :: "agent_event \<Rightarrow> BaseAgent \<Rightarrow> BaseAgent" where
  "agent_step (Begin task_id t0) a = begin_task a task_id t0"
| "agent_step (Progress p t) a = update_progress a p t"
| "agent_step (FinishOk t0 t) a = finish_success a t0 t"
| "agent_step (FinishErr e) a = finish_failure a e"
| "agent_step (Reset t) a = reset a t"
| "agent_step (HealthCheckFailed e) a = health_check_failed a e"
| "agent_step (GetStatus t) a = snd (get_status a t)"

definition agent_after :: "string \<Rightarrow> datetime \<Rightarrow> agent_event list \<Rightarrow> BaseAgent" where
  "agent_after nm t0 evs = fold agent_step evs (BaseAgent_init nm t0)"

text \<open>The naive mean of a list of durations, for comparison with the stored average.\<close>

definition mean :: "rat list \<Rightarrow> rat" where
  "mean ds = sum_list ds / of_nat (length ds)"

definition rate_ok :: "AgentMetrics \<Rightarrow> bool" where
  "rate_ok m =
     (success_rate m =
        (if tasks_completed m + tasks_failed m = 0 then 0
         else of_nat (tasks_completed m) / of_nat (tasks_completed m + tasks_failed m)))"

text \<open>What every reachable agent satisfies: the rate matches the counters, the progress is a percentage.\<close>

definition agent_inv :: "BaseAgent \<Rightarrow> bool" where
  "agent_inv a =
     (rate_ok (metrics a) \<and> 0 \<le> current_task_progress a \<and> current_task_progress a \<le> 100)"


text \<open>The duration the wrapper measures for a task of a sequence, and whether it succeeded.\<close>

definition duration_of :: "string \<times> datetime \<times> 'r task_run \<Rightarrow> rat" where
  "duration_of = (\<lambda>(task_id, t0, run). finished_at run - t0)"

definition succeeded :: "string \<times> datetime \<times> 'r task_run \<Rightarrow> bool" where
  "succeeded = (\<lambda>(task_id, t0, run). \<not> isl (outcome run))"

text \<open>One task that succeeds, then one that starts at second 10 and fails.\<close>

definition demo_agent_events :: "agent_event list" where
  "demo_agent_events = [Begin ''t1'' 0, FinishOk 0 5, Begin ''t2'' 10, FinishErr ''boom'']"

section \<open>The provider registry\<close>

text \<open>
  Source: \<^verbatim>\<open>app/services/llm_service.py\<close>. A provider handle is the client object with
  the attributes the service reads and writes. What a provider's API answers and whether
  a client constructor raises are inputs of the model.
\<close>

datatype LLMProvider = OPENAI | ANTHROPIC | HUGGINGFACE | LOCAL

fun provider_value :: "LLMProvider \<Rightarrow> string" where
  "provider_value OPENAI = ''openai''"
| "provider_value ANTHROPIC = ''anthropic''"
| "provider_value HUGGINGFACE = ''huggingface''"
| "provider_value LOCAL = ''local''"

fun provider_key :: "LLMProvider \<Rightarrow> string" where
  "provider_key OPENAI = ''OPENAI''"
| "provider_key ANTHROPIC = ''ANTHROPIC''"
| "provider_key HUGGINGFACE = ''HUGGINGFACE''"
| "provider_key LOCAL = ''LOCAL''"

text \<open>The \<^verbatim>\<open>repr\<close> of an enum member, which is the text of a \<^verbatim>\<open>KeyError\<close> for it.\<close>

definition provider_repr :: "LLMProvider \<Rightarrow> string" where
  "provider_repr p =
     ''<LLMProvider.'' @ provider_key p @ '': '' @ [CHR 0x27] @ provider_value p @ [CHR 0x27] @ ''>''"

text \<open>
  The two client classes. A \<^verbatim>\<open>ChatOpenAI\<close> object keeps its model under the attribute
  \<^verbatim>\<open>model_name\<close>; a \<^verbatim>\<open>ChatAnthropic\<close> object keeps it under \<^verbatim>\<open>model\<close> and has no
  attribute of that name, so that \<^verbatim>\<open>getattr(provider, 'model_name', 'unknown')\<close> yields
  the default for it.
\<close>

datatype client_class = ChatOpenAI | ChatAnthropic

record client =
  class_of :: client_class
  model :: string
  temperature :: rat
  max_tokens :: int

definition getattr_model_name :: "client \<Rightarrow> string" where
  "getattr_model_name c = (case class_of c of ChatOpenAI \<Rightarrow> model c | ChatAnthropic \<Rightarrow> ''unknown'')"

record settings =
  OPENAI_API_KEY :: "string option"
  OPENAI_MODEL :: string
  ANTHROPIC_API_KEY :: "string option"
  ANTHROPIC_MODEL :: string
  SERPER_API_KEY :: "string option"
  TAVILY_API_KEY :: "string option"

text \<open>Python truth of an optional string: set and not empty.\<close>

definition truthy :: "string option \<Rightarrow> bool" where
  "truthy k = (case k of None \<Rightarrow> False | Some v \<Rightarrow> v \<noteq> [])"

text \<open>The two dicts, in insertion order.\<close>

record LLMService =
  providers :: "(LLMProvider \<times> client) list"
  provider_health :: "(LLMProvider \<times> bool) list"

datatype message = SystemMessage string | HumanMessage string

record ai_message =
  msg_content :: string
  msg_total_tokens :: "nat option"

record completion =
  c_content :: string
  c_provider :: string
  c_model :: string
  c_tokens_used :: nat

text \<open>
  The world around one call: the settings, what \<^verbatim>\<open>ainvoke\<close> on a provider's client
  answers (an exception text or a message), and the exception text with which a client
  constructor raises, if it does.
\<close>

record world =
  w_settings :: settings
  w_ainvoke :: "LLMProvider \<Rightarrow> client \<Rightarrow> message list \<Rightarrow> string + ai_message"
  w_construct_error :: "LLMProvider \<Rightarrow> string option"

text \<open>The lines the service writes to its log that matter here.\<close>

datatype log_entry =
    Generating LLMProvider
  | ProviderFailed LLMProvider string
  | Reinitialized LLMProvider
  | ReinitializeFailed LLMProvider string

definition new_client :: "client_class \<Rightarrow> string \<Rightarrow> client" where
  "new_client cls m = \<lparr>class_of = cls, model = m, temperature = 0.7, max_tokens = 4000\<rparr>"

text \<open>\<^verbatim>\<open>_initialize_providers\<close>, from empty dicts.\<close>

definition initialize_one ::
  "world \<Rightarrow> LLMProvider \<Rightarrow> client_class \<Rightarrow> string option \<Rightarrow> string \<Rightarrow> LLMService
     \<Rightarrow> LLMService" where
  "initialize_one w p cls key m s =
     (if truthy key
      then (case w_construct_error w p of
              None \<Rightarrow> s\<lparr>providers := AList.update p (new_client cls m) (providers s),
                        provider_health := AList.update p True (provider_health s)\<rparr>
            | Some e \<Rightarrow> s\<lparr>provider_health := AList.update p False (provider_health s)\<rparr>)
      else s)"

definition initialize_providers :: "world \<Rightarrow> string + LLMService" where
  "initialize_providers w =
     (let st = w_settings w;
          s0 = \<lparr>providers = [], provider_health = []\<rparr>;
          s1 = initialize_one w OPENAI ChatOpenAI (OPENAI_API_KEY st) (OPENAI_MODEL st) s0;
          s2 = initialize_one w ANTHROPIC ChatAnthropic (ANTHROPIC_API_KEY st)
                 (ANTHROPIC_MODEL st) s1
      in if providers s2 = []
         then Inl ''No LLM providers available. Please configure at least one provider.''
         else Inr s2)"

definition get_available_providers :: "LLMService \<Rightarrow> LLMProvider list" where
  "get_available_providers s = map fst (filter snd (provider_health s))"

text \<open>\<^verbatim>\<open>_reinitialize_provider\<close>: a new client and a healthy mark, if the key is configured
  and the constructor does not raise.\<close>

definition reinitialize_provider ::
  "world \<Rightarrow> LLMService \<Rightarrow> LLMProvider \<Rightarrow> LLMService \<times> log_entry list" where
  "reinitialize_provider w s p =
     (let st = w_settings w;
          renew = (\<lambda>cls m.
            case w_construct_error w p of
              Some e \<Rightarrow> (s, [ReinitializeFailed p e])
            | None \<Rightarrow>
                (s\<lparr>providers := AList.update p (new_client cls m) (providers s),
                   provider_health := AList.update p True (provider_health s)\<rparr>,
                 [Reinitialized p]))
      in if p = OPENAI \<and> truthy (OPENAI_API_KEY st) then renew ChatOpenAI (OPENAI_MODEL st)
         else if p = ANTHROPIC \<and> truthy (ANTHROPIC_API_KEY st)
         then renew ChatAnthropic (ANTHROPIC_MODEL st)
         else (s, []))"

text \<open>The arguments of one \<^verbatim>\<open>generate_completion\<close> call.\<close>

record generate_args =
  prompt :: string
  system_message :: "string option"
  preferred_provider :: "LLMProvider option"
  arg_temperature :: "rat option"
  arg_max_tokens :: "int option"

definition messages_of :: "generate_args \<Rightarrow> message list" where
  "messages_of a =
     (case system_message a of
        None \<Rightarrow> []
      | Some m \<Rightarrow> if m \<noteq> [] then [SystemMessage m] else [])
     @ [HumanMessage (prompt a)]"

text \<open>The order in which the call tries providers: the preferred one if it is healthy,
  then the healthy ones in the order of the health dict, none twice.\<close>

definition providers_to_try :: "LLMService \<Rightarrow> LLMProvider option \<Rightarrow> LLMProvider list" where
  "providers_to_try s preferred =
     (let available_providers = get_available_providers s;
          first = (case preferred of
                     Some p \<Rightarrow> if p \<in> set available_providers then [p] else []
                   | None \<Rightarrow> [])
      in fold (\<lambda>p acc. if p \<in> set acc then acc else acc @ [p]) available_providers first)"

text \<open>The client of a provider as the call configures it before invoking it.\<close>

definition configure :: "generate_args \<Rightarrow> client \<Rightarrow> client" where
  "configure a c =
     (let c1 = (case arg_temperature a of None \<Rightarrow> c | Some t \<Rightarrow> c\<lparr>temperature := t\<rparr>)
      in case arg_max_tokens a of None \<Rightarrow> c1 | Some m \<Rightarrow> c1\<lparr>max_tokens := m\<rparr>)"

text \<open>
  The body of the \<^verbatim>\<open>try\<close> for one provider, from the state the loop is in: the lookup
  of the client (a missing key raises inside the \<^verbatim>\<open>try\<close>), its configuration, the
  invocation and the result dict.
\<close>

definition attempt :: "world \<Rightarrow> generate_args \<Rightarrow> LLMService \<Rightarrow> LLMProvider \<Rightarrow> string + completion" where
  "attempt w a s p =
     (case map_of (providers s) p of
        None \<Rightarrow> Inl (provider_repr p)
      | Some c \<Rightarrow>
          (case w_ainvoke w p (configure a c) (messages_of a) of
             Inl e \<Rightarrow> Inl e
           | Inr m \<Rightarrow>
               Inr \<lparr>c_content = msg_content m, c_provider = provider_value p,
                    c_model = getattr_model_name (configure a c),
                    c_tokens_used = (case msg_total_tokens m of None \<Rightarrow> 0 | Some n \<Rightarrow> n)\<rparr>))"

definition configured :: "generate_args \<Rightarrow> LLMService \<Rightarrow> LLMProvider \<Rightarrow> LLMService" where
  "configured a s p =
     (case map_of (providers s) p of
        None \<Rightarrow> s
      | Some c \<Rightarrow> s\<lparr>providers := AList.update p (configure a c) (providers s)\<rparr>)"

text \<open>The \<^verbatim>\<open>Generating completion with\<close> line is written once the client was found.\<close>

definition generating_log :: "LLMService \<Rightarrow> LLMProvider \<Rightarrow> log_entry list" where
  "generating_log s p = (case map_of (providers s) p of None \<Rightarrow> [] | Some c \<Rightarrow> [Generating p])"

definition all_failed :: "string option \<Rightarrow> string" where
  "all_failed last_error =
     ''All providers failed. Last error: ''
       @ (case last_error of None \<Rightarrow> ''None'' | Some e \<Rightarrow> e)"

text \<open>The \<^verbatim>\<open>except\<close> branch for one provider: mark it unhealthy, then try to
  reinitialize it. The client was configured before the invocation failed.\<close>

definition on_failure ::
  "world \<Rightarrow> generate_args \<Rightarrow> LLMService \<Rightarrow> LLMProvider \<Rightarrow> LLMService \<times> log_entry list" where
  "on_failure w a s p =
     (let s1 = configured a s p;
          s2 = s1\<lparr>provider_health := AList.update p False (provider_health s1)\<rparr>
      in reinitialize_provider w s2 p)"

text \<open>The loop over the providers to try; it returns the result or the final error, the
  service state and the log lines written.\<close>

fun try_providers ::
  "world \<Rightarrow> generate_args \<Rightarrow> LLMService \<Rightarrow> LLMProvider list \<Rightarrow> string option
     \<Rightarrow> (string + completion) \<times> LLMService \<times> log_entry list" where
  "try_providers w a s [] last_error = (Inl (all_failed last_error), s, [])"
| "try_providers w a s (p # ps) last_error =
     (case attempt w a s p of
        Inr result \<Rightarrow> (Inr result, configured a s p, generating_log s p)
      | Inl e \<Rightarrow>
          (let (s3, reinit_log) = on_failure w a s p;
               (res, s4, rest_log) = try_providers w a s3 ps (Some e)
           in (res, s4, generating_log s p @ [ProviderFailed p e] @ reinit_log @ rest_log)))"

definition generate_completion ::
  "world \<Rightarrow> LLMService \<Rightarrow> generate_args \<Rightarrow> (string + completion) \<times> LLMService \<times> log_entry list" where
  "generate_completion w s a = try_providers w a s (providers_to_try s (preferred_provider a)) None"

text \<open>The last provider error of a failed call that tried \<open>ps\<close> in this order.\<close>

definition last_error_of ::
  "world \<Rightarrow> generate_args \<Rightarrow> LLMService \<Rightarrow> LLMProvider list \<Rightarrow> string option
     \<Rightarrow> string option" where
  "last_error_of w a s ps last_error =
     (if ps = [] then last_error
      else (case attempt w a s (last ps) of Inl e \<Rightarrow> Some e | Inr r \<Rightarrow> None))"

text \<open>\<^verbatim>\<open>health_check\<close>: probe every registered provider and refresh its mark. The probe
  sends one fixed message.\<close>

definition health_check :: "world \<Rightarrow> LLMService \<Rightarrow> LLMService" where
  "health_check w s =
     fold (\<lambda>(p, c) s'.
             s'\<lparr>provider_health :=
                  AList.update p (\<not> isl (w_ainvoke w p c [HumanMessage ''Hello'']))
                    (provider_health s')\<rparr>)
       (providers s) s"

text \<open>Worlds and arguments to evaluate the registry on: both provider keys configured,
  no web-search backend.\<close>

definition demo_settings :: settings where
  "demo_settings =
     \<lparr>OPENAI_API_KEY = Some ''sk-1'', OPENAI_MODEL = ''gpt-4'',
      ANTHROPIC_API_KEY = Some ''sk-2'', ANTHROPIC_MODEL = ''claude-3'',
      SERPER_API_KEY = None, TAVILY_API_KEY = None\<rparr>"

definition demo_reply :: "string + ai_message" where
  "demo_reply = Inr \<lparr>msg_content = ''Hello.'', msg_total_tokens = Some 5\<rparr>"

text \<open>Every API answers.\<close>

definition world_up :: world where
  "world_up =
     \<lparr>w_settings = demo_settings, w_ainvoke = (\<lambda>p c ms. demo_reply),
      w_construct_error = (\<lambda>p. None)\<rparr>"

text \<open>OpenAI times out, Anthropic answers.\<close>

definition world_openai_down :: world where
  "world_openai_down =
     \<lparr>w_settings = demo_settings,
      w_ainvoke = (\<lambda>p c ms. if p = OPENAI then Inl ''timeout'' else demo_reply),
      w_construct_error = (\<lambda>p. None)\<rparr>"

text \<open>Anthropic times out, OpenAI answers.\<close>

definition world_anthropic_down :: world where
  "world_anthropic_down =
     \<lparr>w_settings = demo_settings,
      w_ainvoke = (\<lambda>p c ms. if p = ANTHROPIC then Inl ''timeout'' else demo_reply),
      w_construct_error = (\<lambda>p. None)\<rparr>"

text \<open>OpenAI times out and its client cannot be rebuilt; Anthropic answers.\<close>

definition world_openai_broken :: world where
  "world_openai_broken =
     \<lparr>w_settings = demo_settings,
      w_ainvoke = (\<lambda>p c ms. if p = OPENAI then Inl ''timeout'' else demo_reply),
      w_construct_error = (\<lambda>p. if p = OPENAI then Some ''invalid key'' else None)\<rparr>"

definition demo_args :: generate_args where
  "demo_args =
     \<lparr>prompt = ''Test connection'', system_message = None, preferred_provider = Some OPENAI,
      arg_temperature = Some 0.7, arg_max_tokens = Some 10\<rparr>"

text \<open>The service as \<^verbatim>\<open>_initialize_providers\<close> builds it with both keys configured.\<close>

definition demo_service :: LLMService where
  "demo_service =
     \<lparr>providers = [(OPENAI, new_client ChatOpenAI ''gpt-4''),
                   (ANTHROPIC, new_client ChatAnthropic ''claude-3'')],
      provider_health = [(OPENAI, True), (ANTHROPIC, True)]\<rparr>"


text \<open>The service after a call during which OpenAI timed out and could not be rebuilt.\<close>

definition service_after_breakdown :: LLMService where
  "service_after_breakdown =
     fst (snd (generate_completion world_openai_broken demo_service demo_args))"

text \<open>The service after a health check during which OpenAI timed out.\<close>

definition service_after_check :: LLMService where
  "service_after_check = health_check world_openai_down demo_service"

section \<open>Python string operations\<close>

text \<open>
  A Python \<^verbatim>\<open>str\<close> is modelled as a \<open>string\<close>, one \<open>char\<close> per character: texts are
  taken to be ASCII, where \<^verbatim>\<open>len\<close> counts what \<open>length\<close> counts and \<^verbatim>\<open>lower\<close> only
  changes the letters A to Z.
\<close>

text \<open>\<^verbatim>\<open>s.split(sep)\<close> for a non-empty separator: cut at each occurrence, left to right.\<close>

fun split_from :: "string \<Rightarrow> string \<Rightarrow> string \<Rightarrow> string list" where
  "split_from sep acc [] = [rev acc]"
| "split_from sep acc (c # cs) =
     (if sep \<noteq> [] \<and> take (length sep) (c # cs) = sep
      then rev acc # split_from sep [] (drop (length sep) (c # cs))
      else split_from sep (c # acc) cs)"

definition split :: "string \<Rightarrow> string \<Rightarrow> string list" where
  "split s sep = split_from sep [] s"

definition newline :: char where
  "newline = CHR 0x0A"

definition lower_char :: "char \<Rightarrow> char" where
  "lower_char c = (let n = of_char c :: nat in if 65 \<le> n \<and> n \<le> 90 then char_of (n + 32) else c)"

definition lower :: "string \<Rightarrow> string" where
  "lower s = map lower_char s"

text \<open>\<^verbatim>\<open>sub in s\<close>.\<close>

fun contains :: "string \<Rightarrow> string \<Rightarrow> bool" where
  "contains sub [] = (sub = [])"
| "contains sub (c # cs) = (take (length sub) (c # cs) = sub \<or> contains sub cs)"

definition startswith :: "string \<Rightarrow> string \<Rightarrow> bool" where
  "startswith s pre = (take (length pre) s = pre)"

text \<open>\<^verbatim>\<open>s.strip(chars)\<close> and \<^verbatim>\<open>s.strip()\<close>.\<close>

definition strip_chars :: "string \<Rightarrow> string \<Rightarrow> string" where
  "strip_chars s chars =
     rev (dropWhile (\<lambda>c. c \<in> set chars) (rev (dropWhile (\<lambda>c. c \<in> set chars) s)))"

definition whitespace :: string where
  "whitespace =
     [CHR '' '', CHR 0x09, CHR 0x0A, CHR 0x0B, CHR 0x0C, CHR 0x0D, CHR 0x1C, CHR 0x1D,
      CHR 0x1E, CHR 0x1F]"

definition strip :: "string \<Rightarrow> string" where
  "strip s = strip_chars s whitespace"

text \<open>The decimal digits of a number, as an f-string prints it.\<close>

fun str_nat :: "nat \<Rightarrow> string" where
  "str_nat n =
     (if n < 10 then [char_of (48 + n)] else str_nat (n div 10) @ [char_of (48 + n mod 10)])"

declare str_nat.simps [simp del]

section \<open>The research agent\<close>

text \<open>
  Source: \<^verbatim>\<open>app/agents/research_agent.py\<close>. The replies of the provider to the three
  completions the agent asks for, and the hits of a configured search backend, are inputs
  of the model; the research plan only shapes the prompts and queries sent out and is not
  modelled beyond the call that produces it.
\<close>

text \<open>One gathered source snippet.\<close>

record web_result =
  wr_title :: string
  wr_url :: string
  wr_snippet :: string
  wr_source :: string
  wr_relevance_score :: rat

text \<open>The research bundle that \<^verbatim>\<open>_create_research_summary\<close> builds; a statistic and a
  quote are pairs of a text and its \<^verbatim>\<open>source\<close> label.\<close>

record research_summary =
  rs_topic :: string
  sources :: "web_result list"
  key_findings :: "string list"
  statistics :: "(string \<times> string) list"
  expert_quotes :: "(string \<times> string) list"
  trends :: "string list"
  research_completed_at :: datetime
  quality_score :: rat

text \<open>The result of the research agent's \<^verbatim>\<open>process_task\<close>.\<close>

record research_result =
  research_data :: research_summary
  sources_count :: nat
  key_findings_count :: nat
  research_quality_score :: rat

text \<open>\<^verbatim>\<open>_parse_simulated_research\<close>.\<close>

definition simulated_source :: "nat \<times> string \<Rightarrow> web_result" where
  "simulated_source = (\<lambda>(i, section).
     \<lparr>wr_title = ''Research Source '' @ str_nat (i + 1),
      wr_url = ''https://example-source-'' @ str_nat (i + 1) @ ''.com'',
      wr_snippet = take 200 section @ ''...'',
      wr_source = ''llm_simulation'',
      wr_relevance_score = 0.7\<rparr>)"

definition parse_simulated_research :: "string \<Rightarrow> web_result list" where
  "parse_simulated_research content =
     map simulated_source
       (filter (\<lambda>(i, section). length section > 50)
          (enumerate 0 (split content [newline, newline])))"

text \<open>What a search backend found, one record per hit over all queries, up to the point
  where the search ended or failed.\<close>

record search_hit =
  hit_title :: string
  hit_url :: string
  hit_text :: string
  hit_score :: "rat option"

definition serper_result :: "search_hit \<Rightarrow> web_result" where
  "serper_result h =
     \<lparr>wr_title = hit_title h, wr_url = hit_url h, wr_snippet = hit_text h,
      wr_source = ''serper'', wr_relevance_score = 0.8\<rparr>"

definition tavily_result :: "search_hit \<Rightarrow> web_result" where
  "tavily_result h =
     \<lparr>wr_title = hit_title h, wr_url = hit_url h, wr_snippet = take 200 (hit_text h) @ ''...'',
      wr_source = ''tavily'',
      wr_relevance_score = (case hit_score h of None \<Rightarrow> 0.7 | Some v \<Rightarrow> v)\<rparr>"

text \<open>\<^verbatim>\<open>_conduct_web_research\<close>: a search backend if one is configured, else the simulation,
  which fails when the provider call fails.\<close>

definition conduct_web_research ::
  "settings \<Rightarrow> search_hit list \<Rightarrow> string + string \<Rightarrow> string + web_result list" where
  "conduct_web_research st hits simulated_reply =
     (if truthy (SERPER_API_KEY st) then Inr (take 15 (map serper_result hits))
      else if truthy (TAVILY_API_KEY st) then Inr (take 15 (map tavily_result hits))
      else (case simulated_reply of
              Inl e \<Rightarrow> Inl e
            | Inr content \<Rightarrow> Inr (parse_simulated_research content)))"

record organized_findings =
  organized_content :: string
  source_count :: nat
  research_depth :: string

definition organize_findings :: "web_result list \<Rightarrow> string + string \<Rightarrow> string + organized_findings" where
  "organize_findings web_results organize_reply =
     (case organize_reply of
        Inl e \<Rightarrow> Inl e
      | Inr content \<Rightarrow>
          Inr \<lparr>organized_content = content, source_count = length web_results,
               research_depth =
                 (if length web_results \<ge> 10 then ''comprehensive'' else ''moderate'')\<rparr>)"

text \<open>The line classifiers of the summary.\<close>

definition clean :: "string \<Rightarrow> string" where
  "clean line = strip (strip_chars line ''- '')"

fun findings_loop :: "bool \<Rightarrow> string list \<Rightarrow> string list" where
  "findings_loop in_findings_section [] = []"
| "findings_loop in_findings_section (line # rest) =
     (if contains ''key finding'' (lower line) then findings_loop True rest
      else if list_ex (\<lambda>header. contains header (lower line))
                [''statistics'', ''expert'', ''trends'', ''research'']
      then findings_loop False rest
      else if in_findings_section \<and> startswith (strip line) ''-''
      then clean line # findings_loop in_findings_section rest
      else findings_loop in_findings_section rest)"

definition extract_key_findings :: "string \<Rightarrow> string list" where
  "extract_key_findings content = take 8 (findings_loop False (split content [newline]))"

definition extract_statistics :: "string \<Rightarrow> (string \<times> string) list" where
  "extract_statistics content =
     take 5 (map (\<lambda>line. (clean line, ''research''))
       (filter (\<lambda>line. list_ex (\<lambda>indicator. contains indicator line)
                  [''%'', ''percent'', ''billion'', ''million'', ''increase'', ''decrease''])
          (split content [newline])))"

definition extract_quotes :: "string \<Rightarrow> (string \<times> string) list" where
  "extract_quotes content =
     take 3 (map (\<lambda>line. (clean line, ''expert''))
       (filter (\<lambda>line. contains [CHR 0x22] line \<or> contains ''expert'' (lower line))
          (split content [newline])))"

fun trends_loop :: "bool \<Rightarrow> string list \<Rightarrow> string list" where
  "trends_loop in_trends_section [] = []"
| "trends_loop in_trends_section (line # rest) =
     (if contains ''trend'' (lower line) then trends_loop True rest
      else if list_ex (\<lambda>header. contains header (lower line))
                [''finding'', ''statistics'', ''expert'', ''research'']
      then trends_loop False rest
      else if in_trends_section \<and> startswith (strip line) ''-''
      then clean line # trends_loop in_trends_section rest
      else trends_loop in_trends_section rest)"

definition extract_trends :: "string \<Rightarrow> string list" where
  "extract_trends content = take 5 (trends_loop False (split content [newline]))"

definition calculate_quality_score :: "organized_findings \<Rightarrow> rat" where
  "calculate_quality_score found =
     (let base0 = 0.6;
          base1 = (if source_count found \<ge> 10 then base0 + 0.2
                   else if source_count found \<ge> 5 then base0 + 0.1 else base0);
          base2 = (if research_depth found = ''comprehensive'' then base1 + 0.1 else base1)
      in min 1 base2)"

text \<open>\<^verbatim>\<open>_create_research_summary\<close>; the source list is the literal empty list.\<close>

definition create_research_summary :: "string \<Rightarrow> organized_findings \<Rightarrow> datetime \<Rightarrow> research_summary" where
  "create_research_summary tp found now =
     \<lparr>rs_topic = tp,
      sources = [],
      key_findings = extract_key_findings (organized_content found),
      statistics = extract_statistics (organized_content found),
      expert_quotes = extract_quotes (organized_content found),
      trends = extract_trends (organized_content found),
      research_completed_at = now,
      quality_score = calculate_quality_score found\<rparr>"

text \<open>
  What reaches one call of the research agent's \<^verbatim>\<open>process_task\<close> from outside: the topic
  of the task, the provider's reply (an exception text or the content) to the plan, the
  simulation and the synthesis completions, and the hits of a search backend.
\<close>

record research_inputs =
  ri_topic :: string
  plan_reply :: "string + string"
  simulated_reply :: "string + string"
  organize_reply :: "string + string"
  search_hits :: "search_hit list"

definition research_failed ::
  "(int \<times> datetime) list \<Rightarrow> string \<Rightarrow> datetime \<Rightarrow> research_result task_run" where
  "research_failed ps e now = \<lparr>progress_updates = ps, outcome = Inl e, finished_at = now\<rparr>"

text \<open>\<^verbatim>\<open>ResearchAgent.process_task\<close>, as the run the wrapper sees; \<open>clock k\<close> is the
  clock reading at the \<open>k\<close>-th progress update.\<close>

definition research_process_task ::
  "settings \<Rightarrow> research_inputs \<Rightarrow> (nat \<Rightarrow> datetime) \<Rightarrow> research_result task_run" where
  "research_process_task st inp clock =
     (if ri_topic inp = [] then research_failed [] ''Topic is required for research'' (clock 0)
      else
        (let p1 = [(5, clock 0)]
         in case plan_reply inp of
              Inl e \<Rightarrow> research_failed p1 e (clock 1)
            | Inr plan_text \<Rightarrow>
                (let p2 = p1 @ [(20, clock 1)]
                 in case conduct_web_research st (search_hits inp) (simulated_reply inp) of
                      Inl e \<Rightarrow> research_failed p2 e (clock 2)
                    | Inr web_results \<Rightarrow>
                        (let p3 = p2 @ [(50, clock 2)]
                         in case organize_findings web_results (organize_reply inp) of
                              Inl e \<Rightarrow> research_failed p3 e (clock 3)
                            | Inr found \<Rightarrow>
                                (let p4 = p3 @ [(75, clock 3)];
                                     summary = create_research_summary (ri_topic inp) found (clock 4);
                                     p5 = p4 @ [(100, clock 4)]
                                 in \<lparr>progress_updates = p5,
                                      outcome = Inr
                                        \<lparr>research_data = summary,
                                         sources_count = length (sources summary),
                                         key_findings_count = length (key_findings summary),
                                         research_quality_score = quality_score summary\<rparr>,
                                      finished_at = clock 5\<rparr>)))))"

text \<open>The result of a task, if it succeeded.\<close>

fun task_value :: "'r task_result \<Rightarrow> 'r option" where
  "task_value (TaskSucceeded r d) = Some r"
| "task_value (TaskFailed e) = None"

text \<open>A research task for which the provider answers every completion; the simulated
  research comes as two sections, the first longer than 50 characters.\<close>

definition demo_simulation :: string where
  "demo_simulation =
     ''Title: Tea through the ages. Tea has been drunk for thousands of years.''
       @ [newline, newline] @ ''Short.''"

definition demo_inputs :: research_inputs where
  "demo_inputs =
     \<lparr>ri_topic = ''Tea'',
      plan_reply = Inr ''What is tea?'',
      simulated_reply = Inr demo_simulation,
      organize_reply = Inr ''Key Findings'',
      search_hits = []\<rparr>"

definition demo_clock :: "nat \<Rightarrow> datetime" where
  "demo_clock k = of_nat k"

text \<open>What the research agent returns for it.\<close>

definition demo_research :: research_result where
  "demo_research =
     \<lparr>research_data =
        \<lparr>rs_topic = ''Tea'', sources = [], key_findings = [], statistics = [],
         expert_quotes = [], trends = [], research_completed_at = 4, quality_score = 0.6\<rparr>,
      sources_count = 0, key_findings_count = 0, research_quality_score = 0.6\<rparr>"

section \<open>The generation orchestrator\<close>

text \<open>
  Source: \<^verbatim>\<open>app/services/book_generation_service.py\<close>, \<^verbatim>\<open>app/models/book.py\<close> and the
  route \<^verbatim>\<open>create_book\<close> of \<^verbatim>\<open>app/api/books.py\<close>.
\<close>

datatype BookStatus =
  PENDING | RESEARCHING | GENERATING_OUTLINE | WRITING_CONTENT | REVIEWING
  | COMPLETED | FAILED | CANCELLED

text \<open>The position of a status in the lifecycle, in the order the enum declares them.\<close>

fun stage_rank :: "BookStatus \<Rightarrow> nat" where
  "stage_rank PENDING = 0"
| "stage_rank RESEARCHING = 1"
| "stage_rank GENERATING_OUTLINE = 2"
| "stage_rank WRITING_CONTENT = 3"
| "stage_rank REVIEWING = 4"
| "stage_rank COMPLETED = 5"
| "stage_rank FAILED = 6"
| "stage_rank CANCELLED = 7"

record BookGenerationRequest =
  request_id :: string
  topic :: string
  target_audience :: string
  writing_style :: string
  book_length :: string
  chapter_count :: int
  include_examples :: bool
  include_exercises :: bool
  created_at :: datetime

text \<open>The artifact, with the keys \<^verbatim>\<open>_assemble_book\<close> of the content agent always sets.\<close>

record ChapterContent =
  chapter_number :: int
  chapter_title :: string
  chapter_text :: string
  chapter_word_count :: int

record book_content =
  title :: string
  subtitle :: string
  introduction :: string
  chapters :: "ChapterContent list"
  conclusion :: string
  word_count :: int
  page_count :: int

record outline =
  outline_title :: string
  outline_chapter_titles :: "string list"

text \<open>The result of the content agent's \<^verbatim>\<open>process_task\<close> for a full book.\<close>

record content_result =
  cr_book_content :: book_content
  cr_outline :: outline

text \<open>A record of the active table: the dict built at the start of a job and updated in place.\<close>

record generation =
  g_request :: BookGenerationRequest
  g_status :: BookStatus
  g_progress :: int
  g_current_stage :: string
  g_started_at :: datetime
  g_estimated_completion :: datetime
  g_stages_completed :: "string list"
  g_errors :: "string list"
  g_updated_at :: "datetime option"
  g_error :: "string option"
  g_message :: "string option"

text \<open>A record of the completed table.\<close>

record book_data =
  b_request :: BookGenerationRequest
  b_research_data :: research_summary
  b_book_content :: book_content
  b_outline :: outline
  b_quality_score :: rat
  b_completed_at :: datetime
  b_generation_time :: rat

record BookGenerationService =
  active_generations :: "string \<rightharpoonup> generation"
  completed_books :: "string \<rightharpoonup> book_data"

definition BookGenerationService_init :: BookGenerationService where
  "BookGenerationService_init = \<lparr>active_generations = Map.empty, completed_books = Map.empty\<rparr>"

text \<open>\<^verbatim>\<open>_update_book_status\<close>; the last argument is the clock reading.\<close>

definition update_book_status ::
  "BookGenerationService \<Rightarrow> string \<Rightarrow> BookStatus \<Rightarrow> int option \<Rightarrow> string \<Rightarrow> datetime
     \<Rightarrow> BookGenerationService" where
  "update_book_status s book_id status progress message now =
     (case active_generations s book_id of
        None \<Rightarrow> s
      | Some g \<Rightarrow>
          (let g1 = g\<lparr>g_status := status, g_current_stage := message, g_updated_at := Some now\<rparr>;
               g2 = (case progress of None \<Rightarrow> g1 | Some p \<Rightarrow> g1\<lparr>g_progress := p\<rparr>)
           in s\<lparr>active_generations := (active_generations s)(book_id \<mapsto> g2)\<rparr>))"

text \<open>
  \<^verbatim>\<open>_perform_quality_review\<close>, statement by statement. The artifact always carries every
  key, so the defaults of the \<^verbatim>\<open>.get\<close> calls are never taken; a string or a list is
  truthy when it is not empty.
\<close>

definition perform_quality_review :: "content_result \<Rightarrow> rat" where
  "perform_quality_review content_result =
     (let book = cr_book_content content_result;
          wc = word_count book;
          chapter_count = int (length (chapters book));
          q0 = 0.7;
          q1 = (if wc \<ge> 15000 then q0 + 0.15 else if wc \<ge> 8000 then q0 + 0.1 else q0);
          q2 = (if 5 \<le> chapter_count \<and> chapter_count \<le> 12 then q1 + 0.1 else q1);
          q3 = (if list_all (\<lambda>present. present)
                     [introduction book \<noteq> [], chapters book \<noteq> [], conclusion book \<noteq> []]
                then q2 + 0.05 else q2)
      in min 1 q3)"

text \<open>The score as the specification words it: a base, three bonuses, a cap.\<close>

definition quality_score_spec :: "book_content \<Rightarrow> rat" where
  "quality_score_spec book =
     min 1
       (0.7
        + (if word_count book \<ge> 15000 then 0.15 else if word_count book \<ge> 8000 then 0.1 else 0)
        + (if 5 \<le> length (chapters book) \<and> length (chapters book) \<le> 12 then 0.1 else 0)
        + (if introduction book \<noteq> [] \<and> chapters book \<noteq> [] \<and> conclusion book \<noteq> []
           then 0.05 else 0))"

text \<open>
  \<^verbatim>\<open>generate_book_async\<close> suspends only while an agent works, so it runs in three blocks.
  Each block returns the states the two tables pass through, one per statement that writes
  them, the last one being the state at the next suspension (or at the end). In the last
  block the read of \<^verbatim>\<open>started_at\<close> raises \<^verbatim>\<open>KeyError\<close> when the job has left the
  active table, before the completed table is written.
\<close>

definition new_generation :: "BookGenerationRequest \<Rightarrow> datetime \<Rightarrow> generation" where
  "new_generation request now =
     \<lparr>g_request = request, g_status = PENDING, g_progress = 0,
      g_current_stage = ''initializing'', g_started_at = now,
      g_estimated_completion = now + 15 * 60, g_stages_completed = [], g_errors = [],
      g_updated_at = None, g_error = None, g_message = None\<rparr>"

text \<open>The \<^verbatim>\<open>except\<close> branch, for an exception whose text is \<open>e\<close>.\<close>

definition on_exception ::
  "BookGenerationService \<Rightarrow> string \<Rightarrow> string \<Rightarrow> datetime \<Rightarrow> BookGenerationService list" where
  "on_exception s book_id e now =
     (let s1 = update_book_status s book_id FAILED None (''Generation failed: '' @ e) now
      in case active_generations s1 book_id of
           None \<Rightarrow> [s1]
         | Some g \<Rightarrow>
             [s1, s1\<lparr>active_generations := (active_generations s1)(book_id \<mapsto> g\<lparr>g_error := Some e\<rparr>)\<rparr>])"

definition generate_start ::
  "BookGenerationService \<Rightarrow> BookGenerationRequest \<Rightarrow> datetime \<Rightarrow> BookGenerationService list" where
  "generate_start s request now =
     (let book_id = request_id request;
          s0 = s\<lparr>active_generations :=
                  (active_generations s)(book_id \<mapsto> new_generation request now)\<rparr>
      in [s0, update_book_status s0 book_id RESEARCHING (Some 5) ''Starting research phase'' now])"

definition after_research ::
  "BookGenerationService \<Rightarrow> BookGenerationRequest \<Rightarrow> research_result task_result \<Rightarrow> datetime
     \<Rightarrow> BookGenerationService list" where
  "after_research s request research now =
     (let book_id = request_id request
      in case research of
           TaskFailed e \<Rightarrow> on_exception s book_id (''Research failed: '' @ e) now
         | TaskSucceeded r d \<Rightarrow>
             [update_book_status s book_id GENERATING_OUTLINE (Some 30)
                ''Research completed, generating outline'' now])"

text \<open>The text of the \<^verbatim>\<open>KeyError\<close> for a missing job id: the id in quotes.\<close>

definition key_error_text :: "string \<Rightarrow> string" where
  "key_error_text book_id = [CHR 0x27] @ book_id @ [CHR 0x27]"

definition after_content ::
  "BookGenerationService \<Rightarrow> BookGenerationRequest \<Rightarrow> research_result
     \<Rightarrow> content_result task_result \<Rightarrow> datetime \<Rightarrow> BookGenerationService list" where
  "after_content s request r content now =
     (let book_id = request_id request
      in case content of
           TaskFailed e \<Rightarrow> on_exception s book_id (''Content generation failed: '' @ e) now
         | TaskSucceeded c d \<Rightarrow>
             (let s1 = update_book_status s book_id REVIEWING (Some 85)
                         ''Content generated, reviewing quality'' now;
                  quality_score = perform_quality_review c;
                  s2 = update_book_status s1 book_id COMPLETED (Some 100)
                         ''Book generation completed'' now
              in case active_generations s2 book_id of
                   None \<Rightarrow> [s1, s2] @ on_exception s2 book_id (key_error_text book_id) now
                 | Some g \<Rightarrow>
                     (let data = \<lparr>b_request = request, b_research_data = research_data r,
                                  b_book_content = cr_book_content c, b_outline = cr_outline c,
                                  b_quality_score = quality_score, b_completed_at = now,
                                  b_generation_time = now - g_started_at g\<rparr>;
                          s3 = s2\<lparr>completed_books := (completed_books s2)(book_id \<mapsto> data)\<rparr>;
                          s4 = (if book_id \<in> dom (active_generations s3)
                                then s3\<lparr>active_generations := (active_generations s3)(book_id := None)\<rparr>
                                else s3)
                      in [s1, s2, s3, s4])))"

text \<open>
  One whole run of \<^verbatim>\<open>generate_book_async\<close> with nothing else scheduled in between, given
  what the two agents return and the clock reading of each block. The content agent is
  only called when the research succeeded.
\<close>

definition generate_book_async ::
  "BookGenerationService \<Rightarrow> BookGenerationRequest \<Rightarrow> research_result task_result
     \<Rightarrow> content_result task_result \<Rightarrow> datetime \<Rightarrow> datetime \<Rightarrow> datetime
     \<Rightarrow> BookGenerationService list" where
  "generate_book_async s request research content t0 t1 t2 =
     (let h0 = generate_start s request t0;
          h1 = h0 @ after_research (last h0) request research t1
      in case research of
           TaskFailed e \<Rightarrow> h1
         | TaskSucceeded r d \<Rightarrow> h1 @ after_content (last h1) request r content t2)"

text \<open>The status a caller of \<^verbatim>\<open>get_book\<close> sees for a job, if it sees the job at all.\<close>

definition get_book_status :: "BookGenerationService \<Rightarrow> string \<Rightarrow> BookStatus option" where
  "get_book_status s book_id =
     (case active_generations s book_id of
        Some g \<Rightarrow> Some (g_status g)
      | None \<Rightarrow> (if book_id \<in> dom (completed_books s) then Some COMPLETED else None))"

text \<open>The sequence of statuses of a job along a list of states, repetitions merged.\<close>

definition status_sequence :: "string \<Rightarrow> BookGenerationService list \<Rightarrow> BookStatus list" where
  "status_sequence book_id hist = remdups_adj (List.map_filter (\<lambda>s. get_book_status s book_id) hist)"

definition delete_book :: "BookGenerationService \<Rightarrow> string \<Rightarrow> bool \<times> BookGenerationService" where
  "delete_book s book_id =
     (if book_id \<in> dom (active_generations s)
      then (True, s\<lparr>active_generations := (active_generations s)(book_id := None)\<rparr>)
      else if book_id \<in> dom (completed_books s)
      then (True, s\<lparr>completed_books := (completed_books s)(book_id := None)\<rparr>)
      else (False, s))"

definition cancel_generation :: "BookGenerationService \<Rightarrow> string \<Rightarrow> bool \<times> BookGenerationService" where
  "cancel_generation s book_id =
     (case active_generations s book_id of
        Some g \<Rightarrow>
          (True, s\<lparr>active_generations := (active_generations s)(book_id \<mapsto>
                      g\<lparr>g_status := CANCELLED, g_message := Some ''Generation cancelled by user''\<rparr>)\<rparr>)
      | None \<Rightarrow> (False, s))"

text \<open>
  The orchestrator under the event loop. A job's background task is at one of two
  suspension points, holding its locals; \<^verbatim>\<open>create_book\<close> draws the job id with
  \<^verbatim>\<open>uuid4\<close>, which is taken never to repeat: \<open>issued\<close> lists the ids drawn so far and a
  \<open>CreateBook\<close> with one of them does not occur. Events that cannot occur in the current
  state leave it unchanged.
\<close>

datatype task_pc =
    AwaitResearch BookGenerationRequest
  | AwaitContent BookGenerationRequest research_result

record orchestrator =
  service :: BookGenerationService
  tasks :: "string \<rightharpoonup> task_pc"
  issued :: "string list"

definition orchestrator_init :: orchestrator where
  "orchestrator_init = \<lparr>service = BookGenerationService_init, tasks = Map.empty, issued = []\<rparr>"

datatype event =
    CreateBook BookGenerationRequest datetime
  | ResearchReturns string "research_result task_result" datetime
  | ContentReturns string "content_result task_result" datetime
  | DeleteBook string
  | CancelGeneration string

fun step :: "event \<Rightarrow> orchestrator \<Rightarrow> orchestrator" where
  "step (CreateBook request now) x =
     (if request_id request \<in> set (issued x) then x
      else x\<lparr>service := last (generate_start (service x) request now),
             tasks := (tasks x)(request_id request \<mapsto> AwaitResearch request),
             issued := request_id request # issued x\<rparr>)"
| "step (ResearchReturns book_id research now) x =
     (case tasks x book_id of
        Some (AwaitResearch request) \<Rightarrow>
          x\<lparr>service := last (after_research (service x) request research now),
            tasks := (case research of
                        TaskFailed e \<Rightarrow> (tasks x)(book_id := None)
                      | TaskSucceeded r d \<Rightarrow> (tasks x)(book_id \<mapsto> AwaitContent request r))\<rparr>
      | _ \<Rightarrow> x)"
| "step (ContentReturns book_id content now) x =
     (case tasks x book_id of
        Some (AwaitContent request r) \<Rightarrow>
          x\<lparr>service := last (after_content (service x) request r content now),
            tasks := (tasks x)(book_id := None)\<rparr>
      | _ \<Rightarrow> x)"
| "step (DeleteBook book_id) x = x\<lparr>service := snd (delete_book (service x) book_id)\<rparr>"
| "step (CancelGeneration book_id) x = x\<lparr>service := snd (cancel_generation (service x) book_id)\<rparr>"

definition after_events :: "event list \<Rightarrow> orchestrator" where
  "after_events evs = fold step evs orchestrator_init"

text \<open>The ids each table holds.\<close>

definition active_ids :: "orchestrator \<Rightarrow> string set" where
  "active_ids x = dom (active_generations (service x))"

definition completed_ids :: "orchestrator \<Rightarrow> string set" where
  "completed_ids x = dom (completed_books (service x))"

fun pc_request :: "task_pc \<Rightarrow> BookGenerationRequest" where
  "pc_request (AwaitResearch request) = request"
| "pc_request (AwaitContent request r) = request"

text \<open>
  What every state of the orchestrator between two events satisfies: no id is in both
  tables, every id in use was issued, a job in the completed table has no task any more,
  and a task is filed under the id of its own request.
\<close>

definition orch_inv :: "orchestrator \<Rightarrow> bool" where
  "orch_inv x =
     (active_ids x \<inter> completed_ids x = {}
      \<and> dom (tasks x) \<subseteq> set (issued x)
      \<and> active_ids x \<subseteq> set (issued x)
      \<and> completed_ids x \<subseteq> set (issued x)
      \<and> completed_ids x \<inter> dom (tasks x) = {}
      \<and> (\<forall>b pc. tasks x b = Some pc \<longrightarrow> request_id (pc_request pc) = b))"

text \<open>A step moves a job into the completed table when the job is there after it and was not before.\<close>

definition moved :: "string \<Rightarrow> orchestrator \<Rightarrow> event \<Rightarrow> bool" where
  "moved book_id x ev = (book_id \<notin> completed_ids x \<and> book_id \<in> completed_ids (step ev x))"

fun moves :: "string \<Rightarrow> orchestrator \<Rightarrow> event list \<Rightarrow> nat" where
  "moves book_id x [] = 0"
| "moves book_id x (ev # evs) =
     (if moved book_id x ev then 1 else 0) + moves book_id (step ev x) evs"

definition terminal_success :: "string \<Rightarrow> event \<Rightarrow> bool" where
  "terminal_success book_id ev =
     (case ev of
        ContentReturns b (TaskSucceeded c d) now \<Rightarrow> b = book_id
      | _ \<Rightarrow> False)"

text \<open>The return of the content agent completes a job: its task awaits it, its record is still active, and the agent succeeded.\<close>

definition completes :: "orchestrator \<Rightarrow> string \<Rightarrow> content_result task_result \<Rightarrow> bool" where
  "completes x b content =
     ((\<exists>request r. tasks x b = Some (AwaitContent request r)) \<and> b \<in> active_ids x
      \<and> (\<exists>c d. content = TaskSucceeded c d))"

text \<open>A job and an artifact to evaluate the definitions on.\<close>

definition demo_request :: BookGenerationRequest where
  "demo_request =
     \<lparr>request_id = ''job-1'', topic = ''Tea'', target_audience = ''general'',
      writing_style = ''professional'', book_length = ''medium'', chapter_count = 3,
      include_examples = True, include_exercises = False, created_at = 0\<rparr>"

definition demo_content :: content_result where
  "demo_content =
     \<lparr>cr_book_content =
        \<lparr>title = ''Tea'', subtitle = '''', introduction = ''Tea is a drink.'',
         chapters = [\<lparr>chapter_number = 1, chapter_title = ''Leaves'',
                      chapter_text = ''Leaves are green.'', chapter_word_count = 3\<rparr>],
         conclusion = ''Drink tea.'', word_count = 9, page_count = 1\<rparr>,
      cr_outline = \<lparr>outline_title = ''Tea'', outline_chapter_titles = [''Leaves'']\<rparr>\<rparr>"

text \<open>A job is created and researched; then its content arrives.\<close>

definition demo_events :: "event list" where
  "demo_events =
     [CreateBook demo_request 0, ResearchReturns ''job-1'' (TaskSucceeded demo_research 50) 50]"

definition demo_completion :: event where
  "demo_completion = ContentReturns ''job-1'' (TaskSucceeded demo_content 600) 650"

section \<open>Properties of the agent metrics\<close>

lemma rate_ok_default: "rate_ok AgentMetrics_default"
  by (simp add: rate_ok_def AgentMetrics_default_def)

lemma rate_ok_begin: "metrics (begin_task a tid t) = metrics a"
  by (simp add: begin_task_def)

lemma metrics_update_progress: "metrics (update_progress a p t) = metrics a"
  by (simp add: update_progress_def)

lemma metrics_progress_fold:
  "metrics (fold (\<lambda>(p, t) b. update_progress b p t) ps a) = metrics a"
  by (induction ps arbitrary: a) (auto simp: metrics_update_progress)

lemma counts_update_average:
  "tasks_completed (update_average m d) = tasks_completed m"
  "tasks_failed (update_average m d) = tasks_failed m"
  by (simp_all add: update_average_def Let_def split: option.splits)

lemma rate_ok_finish_success: "rate_ok (metrics (finish_success a t0 t))"
  by (simp add: finish_success_def rate_ok_def Let_def counts_update_average)

lemma rate_ok_finish_failure: "rate_ok (metrics (finish_failure a e))"
  by (simp add: finish_failure_def rate_ok_def Let_def)

lemma counts_finish_success:
  "tasks_completed (metrics (finish_success a t0 t)) = Suc (tasks_completed (metrics a))"
  "tasks_failed (metrics (finish_success a t0 t)) = tasks_failed (metrics a)"
  by (simp_all add: finish_success_def Let_def counts_update_average)

lemma counts_finish_failure:
  "tasks_completed (metrics (finish_failure a e)) = tasks_completed (metrics a)"
  "tasks_failed (metrics (finish_failure a e)) = Suc (tasks_failed (metrics a))"
  by (simp_all add: finish_failure_def Let_def)

lemma rate_ok_execute_task: "rate_ok (metrics (snd (execute_task a tid t0 run)))"
  by (simp add: execute_task_def Let_def rate_ok_finish_success rate_ok_finish_failure
      split: sum.splits)

lemma total_execute_task:
  "tasks_completed (metrics (snd (execute_task a tid t0 run)))
     + tasks_failed (metrics (snd (execute_task a tid t0 run)))
   = Suc (tasks_completed (metrics a) + tasks_failed (metrics a))"
  by (simp add: execute_task_def Let_def counts_finish_success counts_finish_failure
      metrics_progress_fold rate_ok_begin split: sum.splits)

lemma execute_tasks_inv:
  "rate_ok (metrics a) \<Longrightarrow>
   rate_ok (metrics (execute_tasks a runs)) \<and>
   tasks_completed (metrics (execute_tasks a runs)) + tasks_failed (metrics (execute_tasks a runs))
     = tasks_completed (metrics a) + tasks_failed (metrics a) + length runs"
proof (induction a runs rule: execute_tasks.induct)
  case (1 a)
  then show ?case by simp
next
  case (2 a task_id t0 run rest)
  have "rate_ok (metrics (snd (execute_task a task_id t0 run)))"
    by (rule rate_ok_execute_task)
  from "2.IH" [OF this] show ?case
    by (simp add: total_execute_task)
qed

lemma rate_ok_bounds: "rate_ok m \<Longrightarrow> 0 \<le> success_rate m \<and> success_rate m \<le> 1"
  by (auto simp: rate_ok_def divide_le_eq_1 simp del: of_nat_add)

lemma agent_inv_init: "agent_inv (BaseAgent_init nm t)"
  by (simp add: agent_inv_def BaseAgent_init_def rate_ok_default)

lemma agent_inv_get_status: "agent_inv a \<Longrightarrow> agent_inv (snd (get_status a t))"
  by (simp add: agent_inv_def get_status_def Let_def rate_ok_def)

lemma agent_inv_step: "agent_inv a \<Longrightarrow> agent_inv (agent_step ev a)"
proof (cases ev)
  case (FinishOk t0 t)
  then show ?thesis
    using rate_ok_finish_success [of a t0 t]
    by (simp add: agent_inv_def) (simp add: finish_success_def Let_def)
next
  case (FinishErr e)
  assume "agent_inv a"
  with FinishErr show ?thesis
    using rate_ok_finish_failure [of a e]
    by (simp add: agent_inv_def) (simp add: finish_failure_def Let_def)
next
  case (GetStatus t)
  assume "agent_inv a"
  with GetStatus show ?thesis by (simp add: agent_inv_get_status)
qed (simp_all add: agent_inv_def begin_task_def update_progress_def reset_def
      health_check_failed_def)

lemma agent_inv_fold: "agent_inv a \<Longrightarrow> agent_inv (fold agent_step evs a)"
  by (induction evs arbitrary: a) (simp_all add: agent_inv_step)

lemma agent_inv_after: "agent_inv (agent_after nm t0 evs)"
  by (simp add: agent_after_def agent_inv_fold agent_inv_init)

lemma health_in_range:
  fixes r :: rat
  assumes "0 \<le> r" "r \<le> 1"
  shows "0 \<le> r * (if e then 0.5 else 1) * (if s then 0.8 else 1)"
    and "r * (if e then 0.5 else 1) * (if s then 0.8 else 1) \<le> 1"
  using assms by (cases e; cases s; simp)+

text \<open>
  C5. After any sequence of N task executions on a fresh agent, successes and failures in
  any order, the two counters add up to N and the stored success rate is
  completed / (completed + failed), and it is 0 when N = 0.
\<close>

theorem success_rate_after_executions:
  "tasks_completed (metrics (execute_tasks (BaseAgent_init nm t) runs))
     + tasks_failed (metrics (execute_tasks (BaseAgent_init nm t) runs)) = length runs
   \<and> success_rate (metrics (execute_tasks (BaseAgent_init nm t) runs)) =
       (if length runs = 0 then 0
        else of_nat (tasks_completed (metrics (execute_tasks (BaseAgent_init nm t) runs)))
             / of_nat (tasks_completed (metrics (execute_tasks (BaseAgent_init nm t) runs))
                       + tasks_failed (metrics (execute_tasks (BaseAgent_init nm t) runs))))"
proof -
  have init: "rate_ok (metrics (BaseAgent_init nm t))"
    by (simp add: BaseAgent_init_def rate_ok_default)
  have zero: "tasks_completed (metrics (BaseAgent_init nm t))
                + tasks_failed (metrics (BaseAgent_init nm t)) = 0"
    by (simp add: BaseAgent_init_def AgentMetrics_default_def)
  from execute_tasks_inv [OF init, of runs] zero
  have total: "tasks_completed (metrics (execute_tasks (BaseAgent_init nm t) runs))
                 + tasks_failed (metrics (execute_tasks (BaseAgent_init nm t) runs)) = length runs"
    and rate: "rate_ok (metrics (execute_tasks (BaseAgent_init nm t) runs))"
    by simp_all
  from rate total show ?thesis
    unfolding rate_ok_def by simp
qed

text \<open>As long as no task fails, the stored average is the mean of the measured durations.\<close>

lemma average_finish_success:
  assumes "tasks_failed (metrics a) = 0"
    and "tasks_completed (metrics a) = 0 \<longrightarrow> s = 0"
    and "average_task_duration (metrics a) =
           (if tasks_completed (metrics a) = 0 then None
            else Some (s / of_nat (tasks_completed (metrics a))))"
  shows "average_task_duration (metrics (finish_success a t0 t)) =
           Some ((s + (t - t0)) / of_nat (Suc (tasks_completed (metrics a))))"
proof (cases "tasks_completed (metrics a) = 0")
  case True
  with assms show ?thesis
    by (simp add: finish_success_def update_average_def Let_def)
next
  case False
  then have "s / of_nat (tasks_completed (metrics a)) * of_nat (tasks_completed (metrics a)) = s"
    by simp
  with False assms show ?thesis
    by (simp add: finish_success_def update_average_def Let_def del: of_nat_Suc)
qed

lemma average_execute_tasks:
  assumes "list_all succeeded runs"
    and "tasks_failed (metrics a) = 0"
    and "tasks_completed (metrics a) = 0 \<longrightarrow> s = 0"
    and "average_task_duration (metrics a) =
           (if tasks_completed (metrics a) = 0 then None
            else Some (s / of_nat (tasks_completed (metrics a))))"
  shows "average_task_duration (metrics (execute_tasks a runs)) =
           (if tasks_completed (metrics a) + length runs = 0 then None
            else Some ((s + sum_list (map duration_of runs))
                       / of_nat (tasks_completed (metrics a) + length runs)))"
  using assms
proof (induction a runs arbitrary: s rule: execute_tasks.induct)
  case (1 a)
  then show ?case by simp
next
  case (2 a task_id t0 run rest)
  from "2.prems"(1) obtain r where out: "outcome run = Inr r" and rest: "list_all succeeded rest"
    by (cases "outcome run") (auto simp: succeeded_def)
  define a2 where "a2 = fold (\<lambda>(p, t) b. update_progress b p t) (progress_updates run)
      (begin_task a task_id t0)"
  have m2: "metrics a2 = metrics a"
    by (simp add: a2_def metrics_progress_fold rate_ok_begin)
  define a' where "a' = snd (execute_task a task_id t0 run)"
  have a': "a' = finish_success a2 t0 (finished_at run)"
    by (simp add: a'_def execute_task_def a2_def out)
  have f: "tasks_failed (metrics a') = 0"
    and c: "tasks_completed (metrics a') = Suc (tasks_completed (metrics a))"
    using "2.prems"(2) by (simp_all add: a' counts_finish_success m2)
  have avg: "average_task_duration (metrics a') =
      (if tasks_completed (metrics a') = 0 then None
       else Some ((s + duration_of (task_id, t0, run)) / of_nat (tasks_completed (metrics a'))))"
    using average_finish_success [of a2 s t0 "finished_at run"] "2.prems"(2,3,4)
    by (simp add: a' m2 c [unfolded a'] duration_of_def)
  have z: "tasks_completed (metrics a') = 0 \<longrightarrow> s + duration_of (task_id, t0, run) = 0"
    by (simp add: c)
  from "2.IH" [OF rest f [unfolded a'_def] z [unfolded a'_def] avg [unfolded a'_def]]
  show ?case
    by (simp add: c [unfolded a'_def] add.assoc)
qed

lemma average_is_mean_without_failures:
  assumes "list_all succeeded runs"
  shows "average_task_duration (metrics (execute_tasks (BaseAgent_init nm t) runs)) =
           (if runs = [] then None else Some (mean (map duration_of runs)))"
  using average_execute_tasks [OF assms, of "BaseAgent_init nm t" 0]
  by (simp add: BaseAgent_init_def AgentMetrics_default_def mean_def)

text \<open>
  C4, evaluated on the code. One failed task, then two successful tasks of 10 and 20
  seconds: the stored average is 40/3, whereas the mean of the durations of the completed
  tasks is 15. The update divides by completed + failed although only the durations of
  completed tasks enter the sum.
\<close>

theorem average_task_duration_after_failure:
  "average_task_duration (metrics (execute_tasks (BaseAgent_init ''research-agent'' 0)
      [(''t1'', 0, \<lparr>progress_updates = [], outcome = Inl ''boom'', finished_at = 1\<rparr>),
       (''t2'', 1, \<lparr>progress_updates = [], outcome = Inr (), finished_at = 11\<rparr>),
       (''t3'', 11, \<lparr>progress_updates = [], outcome = Inr (), finished_at = 31\<rparr>)]))
     = Some (40 / 3)
   \<and> mean [10, 20] = 15"
  by (simp add: execute_task_def BaseAgent_init_def AgentMetrics_default_def begin_task_def
      finish_success_def finish_failure_def update_average_def mean_def Let_def)

text \<open>
  C8. For every agent reachable from its construction by any interleaving of task starts,
  progress updates, task ends, resets, failed health checks and status reads, and for every
  clock reading, \<^verbatim>\<open>get_status\<close> returns a status (its validation does not reject it) whose
  health score is the success rate, times 0.5 if the state is Error, times 0.8 if the last
  activity is more than 3600 seconds old, and this score lies in [0, 1].
\<close>

theorem health_score_formula:
  "\<exists>st. fst (get_status (agent_after nm t0 evs) now) = Inr st
     \<and> health_score st =
         success_rate (metrics (agent_after nm t0 evs))
           * (if state (agent_after nm t0 evs) = ERROR then 0.5 else 1)
           * (if \<exists>t. last_activity (agent_after nm t0 evs) = Some t \<and> now - t > 3600
              then 0.8 else 1)
     \<and> 0 \<le> health_score st \<and> health_score st \<le> 1"
proof -
  define a where "a = agent_after nm t0 evs"
  define old where "old \<longleftrightarrow> (\<exists>t. last_activity a = Some t \<and> now - t > 3600)"
  have inv: "agent_inv a"
    unfolding a_def by (rule agent_inv_after)
  then have r: "0 \<le> success_rate (metrics a)" "success_rate (metrics a) \<le> 1"
    using rate_ok_bounds [of "metrics a"] by (simp_all add: agent_inv_def)
  have p: "0 \<le> current_task_progress a" "current_task_progress a \<le> 100"
    using inv by (simp_all add: agent_inv_def)
  let ?h = "success_rate (metrics a) * (if state a = ERROR then 0.5 else 1)
              * (if old then 0.8 else 1)"
  have range: "0 \<le> ?h" "?h \<le> 1"
    using health_in_range [OF r] by blast+
  have key: "fst (get_status a now) =
      (if 0 \<le> current_task_progress a \<and> current_task_progress a \<le> 100 \<and> 0 \<le> ?h \<and> ?h \<le> 1
       then Inr \<lparr>status_name = agent_name a, status_state = state a,
                 status_current_task = current_task a,
                 status_current_task_progress = current_task_progress a,
                 status_last_activity = last_activity a,
                 status_error_message = error_message a,
                 status_metrics = (metrics a)\<lparr>total_uptime := Some (now - start_time a)\<rparr>,
                 health_score = ?h\<rparr>
       else Inl ''ValidationError'')"
  proof (cases "last_activity a")
    case None
    then show ?thesis
      by (cases "state a = ERROR") (simp_all add: get_status_def Let_def old_def)
  next
    case (Some t)
    then show ?thesis
      by (cases "state a = ERROR"; cases "now - t > 3600")
        (simp_all add: get_status_def Let_def old_def)
  qed
  have "\<exists>st. fst (get_status a now) = Inr st \<and> health_score st = ?h"
    unfolding key using range p by simp
  with range have "\<exists>st. fst (get_status a now) = Inr st \<and> health_score st = ?h
               \<and> 0 \<le> health_score st \<and> health_score st \<le> 1"
    by auto
  then show ?thesis
    unfolding a_def old_def .
qed

lemma demo_agent:
  "success_rate (metrics (agent_after ''research-agent'' 0 demo_agent_events)) = 1 / 2"
  "state (agent_after ''research-agent'' 0 demo_agent_events) = ERROR"
  "last_activity (agent_after ''research-agent'' 0 demo_agent_events) = Some 10"
  by (simp_all add: agent_after_def demo_agent_events_def BaseAgent_init_def
      AgentMetrics_default_def begin_task_def finish_success_def finish_failure_def
      update_average_def Let_def)

theorem health_score_formula_witness:
  "map_sum id health_score
     (fst (get_status (agent_after ''research-agent'' 0 demo_agent_events) 3611)) = Inr (1 / 5)
   \<and> map_sum id health_score
       (fst (get_status (agent_after ''research-agent'' 0 demo_agent_events) 3610)) = Inr (1 / 4)
   \<and> map_sum id health_score
       (fst (get_status (agent_after ''research-agent'' 0 [Begin ''t1'' 0, FinishOk 0 5]) 3601))
       = Inr (4 / 5)
   \<and> map_sum id health_score
       (fst (get_status (agent_after ''research-agent'' 0 [Begin ''t1'' 0, FinishOk 0 5]) 3600))
       = Inr 1"
proof -
  have ok: "success_rate (metrics (agent_after ''research-agent'' 0 [Begin ''t1'' 0, FinishOk 0 5])) = 1"
    "state (agent_after ''research-agent'' 0 [Begin ''t1'' 0, FinishOk 0 5]) = IDLE"
    "last_activity (agent_after ''research-agent'' 0 [Begin ''t1'' 0, FinishOk 0 5]) = Some 0"
    by (simp_all add: agent_after_def BaseAgent_init_def AgentMetrics_default_def begin_task_def
        finish_success_def update_average_def Let_def)
  from health_score_formula [of "''research-agent''" 0 demo_agent_events 3611]
  have 1: "map_sum id health_score
     (fst (get_status (agent_after ''research-agent'' 0 demo_agent_events) 3611)) = Inr (1 / 5)"
    by (auto simp: demo_agent)
  from health_score_formula [of "''research-agent''" 0 demo_agent_events 3610]
  have 2: "map_sum id health_score
     (fst (get_status (agent_after ''research-agent'' 0 demo_agent_events) 3610)) = Inr (1 / 4)"
    by (auto simp: demo_agent)
  from health_score_formula [of "''research-agent''" 0 "[Begin ''t1'' 0, FinishOk 0 5]" 3601]
  have 3: "map_sum id health_score
       (fst (get_status (agent_after ''research-agent'' 0 [Begin ''t1'' 0, FinishOk 0 5]) 3601))
       = Inr (4 / 5)"
    by (auto simp: ok)
  from health_score_formula [of "''research-agent''" 0 "[Begin ''t1'' 0, FinishOk 0 5]" 3600]
  have 4: "map_sum id health_score
       (fst (get_status (agent_after ''research-agent'' 0 [Begin ''t1'' 0, FinishOk 0 5]) 3600))
       = Inr 1"
    by (auto simp: ok)
  from 1 2 3 4 show ?thesis by blast
qed

section \<open>Properties of the provider registry\<close>

lemma fold_dedup:
  "distinct acc \<Longrightarrow>
   distinct (fold (\<lambda>p acc. if p \<in> set acc then acc else acc @ [p]) xs acc)
   \<and> set (fold (\<lambda>p acc. if p \<in> set acc then acc else acc @ [p]) xs acc) = set acc \<union> set xs"
  by (induction xs arbitrary: acc) auto

lemma providers_to_try_set:
  "distinct (providers_to_try s pref)"
  "set (providers_to_try s pref) = set (get_available_providers s)"
proof -
  define first where "first = (case pref of
      Some p \<Rightarrow> if p \<in> set (get_available_providers s) then [p] else [] | None \<Rightarrow> [])"
  have d: "distinct first" and sub: "set first \<subseteq> set (get_available_providers s)"
    by (auto simp: first_def split: option.splits)
  have eq: "providers_to_try s pref =
      fold (\<lambda>p acc. if p \<in> set acc then acc else acc @ [p]) (get_available_providers s) first"
    by (simp add: providers_to_try_def first_def Let_def)
  from fold_dedup [OF d, of "get_available_providers s"] sub
  show "distinct (providers_to_try s pref)"
    and "set (providers_to_try s pref) = set (get_available_providers s)"
    unfolding eq by auto
qed

lemma providers_configured:
  "map_of (providers (configured a s p)) q =
     (if q = p then map_option (configure a) (map_of (providers s) p) else map_of (providers s) q)"
  by (auto simp: configured_def update_conv' split: option.splits)

lemma providers_reinitialize_other:
  "q \<noteq> p \<Longrightarrow> map_of (providers (fst (reinitialize_provider w s p))) q = map_of (providers s) q"
  by (auto simp: reinitialize_provider_def Let_def update_conv' split: option.splits)

lemma providers_on_failure_other:
  "q \<noteq> p \<Longrightarrow> map_of (providers (fst (on_failure w a s p))) q = map_of (providers s) q"
  by (simp add: on_failure_def Let_def providers_reinitialize_other providers_configured)

lemma attempt_cong:
  "map_of (providers s') q = map_of (providers s) q \<Longrightarrow> attempt w a s' q = attempt w a s q"
  by (simp add: attempt_def)

lemma try_providers_fail:
  "attempt w a s p = Inl e \<Longrightarrow>
   try_providers w a s (p # ps) last_error =
     (fst (try_providers w a (fst (on_failure w a s p)) ps (Some e)),
      fst (snd (try_providers w a (fst (on_failure w a s p)) ps (Some e))),
      generating_log s p @ [ProviderFailed p e] @ snd (on_failure w a s p)
        @ snd (snd (try_providers w a (fst (on_failure w a s p)) ps (Some e))))"
  by (simp add: Let_def split: prod.splits)

lemma try_providers_ok:
  "attempt w a s p = Inr r \<Longrightarrow>
   try_providers w a s (p # ps) last_error = (Inr r, configured a s p, generating_log s p)"
  by simp

lemma find_in_set: "find P xs = Some x \<Longrightarrow> x \<in> set xs"
  by (induction xs) (auto split: if_splits)

lemma try_providers_result:
  "distinct ps \<Longrightarrow>
   fst (try_providers w a s ps last_error) =
     (case find (\<lambda>p. \<not> isl (attempt w a s p)) ps of
        Some p \<Rightarrow> attempt w a s p
      | None \<Rightarrow> Inl (all_failed (last_error_of w a s ps last_error)))"
proof (induction ps arbitrary: s last_error)
  case Nil
  then show ?case by (simp add: last_error_of_def)
next
  case (Cons p ps)
  show ?case
  proof (cases "attempt w a s p")
    case (Inr r)
    then show ?thesis by simp
  next
    case (Inl e)
    define s3 where "s3 = fst (on_failure w a s p)"
    have same: "attempt w a s3 q = attempt w a s q" if "q \<in> set ps" for q
    proof -
      from that Cons.prems have "q \<noteq> p" by auto
      then show ?thesis
        unfolding s3_def by (intro attempt_cong providers_on_failure_other)
    qed
    have f: "find (\<lambda>p. \<not> isl (attempt w a s3 p)) ps = find (\<lambda>p. \<not> isl (attempt w a s p)) ps"
      by (rule find_cong) (simp_all add: same)
    have l: "last_error_of w a s3 ps (Some e) = last_error_of w a s (p # ps) last_error"
      using Inl same [of "last ps"] by (simp add: last_error_of_def)
    have "fst (try_providers w a s (p # ps) last_error) = fst (try_providers w a s3 ps (Some e))"
      using Inl by (simp add: try_providers_fail s3_def del: try_providers.simps)
    also have "\<dots> = (case find (\<lambda>p. \<not> isl (attempt w a s3 p)) ps of
        Some p \<Rightarrow> attempt w a s3 p
      | None \<Rightarrow> Inl (all_failed (last_error_of w a s3 ps (Some e))))"
      using Cons.prems by (intro Cons.IH) simp
    also have "\<dots> = (case find (\<lambda>p. \<not> isl (attempt w a s p)) (p # ps) of
        Some p \<Rightarrow> attempt w a s p
      | None \<Rightarrow> Inl (all_failed (last_error_of w a s (p # ps) last_error)))"
    proof (cases "find (\<lambda>p. \<not> isl (attempt w a s p)) ps")
      case None
      with Inl show ?thesis by (simp add: f l)
    next
      case (Some q)
      with Inl same [OF find_in_set [OF Some]] show ?thesis by (simp add: f)
    qed
    finally show ?thesis .
  qed
qed





lemma failed_logged:
  "distinct ps \<Longrightarrow> isl (fst (try_providers w a s ps le)) \<Longrightarrow> p \<in> set ps \<Longrightarrow>
   \<exists>e. attempt w a s p = Inl e \<and> ProviderFailed p e \<in> set (snd (snd (try_providers w a s ps le)))"
proof (induction ps arbitrary: s le)
  case Nil
  then show ?case by simp
next
  case (Cons q ps)
  show ?case
  proof (cases "attempt w a s q")
    case (Inr r)
    with Cons.prems show ?thesis by simp
  next
    case (Inl e')
    note unf = try_providers_fail [OF Inl]
    show ?thesis
    proof (cases "p = q")
      case True
      with Inl show ?thesis unfolding unf by auto
    next
      case False
      with Cons.prems have p: "p \<in> set ps" and d: "distinct ps" and pq: "p \<noteq> q" by auto
      from Cons.prems(2) have "isl (fst (try_providers w a (fst (on_failure w a s q)) ps (Some e')))"
        unfolding unf by simp
      from Cons.IH [OF d this p] obtain e where
        "attempt w a (fst (on_failure w a s q)) p = Inl e"
        "ProviderFailed p e \<in> set (snd (snd (try_providers w a (fst (on_failure w a s q)) ps (Some e'))))"
        by blast
      moreover have "attempt w a (fst (on_failure w a s q)) p = attempt w a s p"
        using pq by (intro attempt_cong providers_on_failure_other)
      ultimately show ?thesis unfolding unf by auto
    qed
  qed
qed







lemmas llm_eval =
  generate_completion_def providers_to_try_def get_available_providers_def attempt_def
  configured_def configure_def generating_log_def on_failure_def reinitialize_provider_def
  all_failed_def messages_of_def truthy_def new_client_def getattr_model_name_def
  demo_settings_def demo_reply_def
  demo_args_def demo_service_def Let_def

lemma service_after_check_eq:
  "service_after_check =
     \<lparr>providers = [(OPENAI, new_client ChatOpenAI ''gpt-4''), (ANTHROPIC, new_client ChatAnthropic ''claude-3'')],
      provider_health = [(OPENAI, False), (ANTHROPIC, True)]\<rparr>"
  by (simp add: service_after_check_def health_check_def world_openai_down_def demo_service_def
      demo_reply_def)

lemma after_check_call:
  "generate_completion world_anthropic_down service_after_check demo_args =
     (Inl ''All providers failed. Last error: timeout'',
      \<lparr>providers = [(OPENAI, new_client ChatOpenAI ''gpt-4''), (ANTHROPIC, new_client ChatAnthropic ''claude-3'')],
       provider_health = [(OPENAI, False), (ANTHROPIC, True)]\<rparr>,
      [Generating ANTHROPIC, ProviderFailed ANTHROPIC ''timeout'', Reinitialized ANTHROPIC])"
  by (simp add: service_after_check_eq world_anthropic_down_def llm_eval)


lemma breakdown_call:
  "generate_completion world_openai_broken demo_service demo_args =
     (Inr \<lparr>c_content = ''Hello.'', c_provider = ''anthropic'', c_model = ''unknown'',
           c_tokens_used = 5\<rparr>,
      \<lparr>providers = [(OPENAI, (new_client ChatOpenAI ''gpt-4'')\<lparr>max_tokens := 10\<rparr>),
                    (ANTHROPIC, (new_client ChatAnthropic ''claude-3'')\<lparr>max_tokens := 10\<rparr>)],
       provider_health = [(OPENAI, False), (ANTHROPIC, True)]\<rparr>,
      [Generating OPENAI, ProviderFailed OPENAI ''timeout'',
       ReinitializeFailed OPENAI ''invalid key'', Generating ANTHROPIC])"
  by (simp add: world_openai_broken_def llm_eval)


lemma after_breakdown_call:
  "generate_completion world_up service_after_breakdown demo_args =
     (Inr \<lparr>c_content = ''Hello.'', c_provider = ''anthropic'', c_model = ''unknown'',
           c_tokens_used = 5\<rparr>,
      \<lparr>providers = [(OPENAI, (new_client ChatOpenAI ''gpt-4'')\<lparr>max_tokens := 10\<rparr>),
                    (ANTHROPIC, (new_client ChatAnthropic ''claude-3'')\<lparr>max_tokens := 10\<rparr>)],
       provider_health = [(OPENAI, False), (ANTHROPIC, True)]\<rparr>,
      [Generating ANTHROPIC])"
  unfolding service_after_breakdown_def breakdown_call
  by (simp add: world_up_def llm_eval)

lemma attempt_after_check:
  "attempt world_anthropic_down demo_args service_after_check ANTHROPIC = Inl ''timeout''"
  "attempt world_anthropic_down demo_args service_after_check OPENAI =
     Inr \<lparr>c_content = ''Hello.'', c_provider = ''openai'', c_model = ''gpt-4'', c_tokens_used = 5\<rparr>"
  "get_available_providers service_after_check = [ANTHROPIC]"
  by (simp_all add: service_after_check_eq world_anthropic_down_def llm_eval)

lemma available_demo_service: "get_available_providers demo_service = [OPENAI, ANTHROPIC]"
  by (simp add: get_available_providers_def demo_service_def)

lemma attempt_outage:
  "attempt world_openai_down demo_args demo_service OPENAI = Inl ''timeout''"
  "attempt world_openai_down demo_args demo_service ANTHROPIC =
     Inr \<lparr>c_content = ''Hello.'', c_provider = ''anthropic'', c_model = ''unknown'',
          c_tokens_used = 5\<rparr>"
  "providers_to_try demo_service (preferred_provider demo_args) = [OPENAI, ANTHROPIC]"
  by (simp_all add: world_openai_down_def llm_eval)

text \<open>
  C2, as the code has it. A call of \<^verbatim>\<open>generate_completion\<close> fails as a whole exactly
  when every provider that was marked healthy when the call started fails in this call
  (providers marked unhealthy are not tried at all); then each of them was tried and failed
  in this call, and the error carries the error of the last one tried (the text None when
  no provider was healthy). Otherwise the call returns the response of the first provider,
  in the order of trying, whose invocation succeeds.
\<close>

theorem generate_fails_iff_healthy_exhausted:
  "(isl (fst (generate_completion w s a))
      \<longleftrightarrow> (\<forall>p \<in> set (get_available_providers s). isl (attempt w a s p)))
   \<and> (isl (fst (generate_completion w s a)) \<longrightarrow>
        (\<forall>p \<in> set (get_available_providers s).
            \<exists>e. attempt w a s p = Inl e
               \<and> ProviderFailed p e \<in> set (snd (snd (generate_completion w s a))))
        \<and> fst (generate_completion w s a) =
            Inl (all_failed (last_error_of w a s (providers_to_try s (preferred_provider a)) None)))
   \<and> (\<not> isl (fst (generate_completion w s a)) \<longrightarrow>
        (\<exists>p. find (\<lambda>p. \<not> isl (attempt w a s p)) (providers_to_try s (preferred_provider a)) = Some p
             \<and> fst (generate_completion w s a) = attempt w a s p))"
proof -
  define ps where "ps = providers_to_try s (preferred_provider a)"
  have d: "distinct ps" and st: "set ps = set (get_available_providers s)"
    by (simp_all add: ps_def providers_to_try_set)
  have g: "generate_completion w s a = try_providers w a s ps None"
    by (simp add: generate_completion_def ps_def)
  note res = try_providers_result [OF d, of w a s None]
  have iff: "isl (fst (try_providers w a s ps None)) \<longleftrightarrow> (\<forall>p \<in> set ps. isl (attempt w a s p))"
  proof (cases "find (\<lambda>p. \<not> isl (attempt w a s p)) ps")
    case None
    then have "\<forall>p \<in> set ps. isl (attempt w a s p)"
      by (auto simp: find_None_iff)
    then show ?thesis unfolding res None by simp
  next
    case (Some q)
    then have "q \<in> set ps" "\<not> isl (attempt w a s q)"
      by (auto simp: find_Some_iff)
    then show ?thesis unfolding res Some by auto
  qed
  have failed: "isl (fst (try_providers w a s ps None)) \<longrightarrow>
        (\<forall>p \<in> set ps. \<exists>e. attempt w a s p = Inl e
               \<and> ProviderFailed p e \<in> set (snd (snd (try_providers w a s ps None))))
        \<and> fst (try_providers w a s ps None) = Inl (all_failed (last_error_of w a s ps None))"
  proof
    assume f: "isl (fst (try_providers w a s ps None))"
    then have n: "find (\<lambda>p. \<not> isl (attempt w a s p)) ps = None"
      using iff by (simp add: find_None_iff)
    have "fst (try_providers w a s ps None) = Inl (all_failed (last_error_of w a s ps None))"
      unfolding res n by simp
    with failed_logged [OF d f]
    show "(\<forall>p \<in> set ps. \<exists>e. attempt w a s p = Inl e
               \<and> ProviderFailed p e \<in> set (snd (snd (try_providers w a s ps None))))
        \<and> fst (try_providers w a s ps None) = Inl (all_failed (last_error_of w a s ps None))"
      by blast
  qed
  have ok: "\<not> isl (fst (try_providers w a s ps None)) \<longrightarrow>
        (\<exists>p. find (\<lambda>p. \<not> isl (attempt w a s p)) ps = Some p
             \<and> fst (try_providers w a s ps None) = attempt w a s p)"
  proof (cases "find (\<lambda>p. \<not> isl (attempt w a s p)) ps")
    case None
    show ?thesis unfolding res None by simp
  next
    case (Some q)
    show ?thesis unfolding res Some by simp
  qed
  from iff failed ok show ?thesis
    unfolding g st [symmetric] ps_def [symmetric] by blast
qed

theorem generate_fails_iff_healthy_exhausted_witness:
  "isl (fst (generate_completion world_anthropic_down service_after_check demo_args))
   \<and> fst (generate_completion world_anthropic_down service_after_check demo_args)
       = Inl ''All providers failed. Last error: timeout''
   \<and> ProviderFailed ANTHROPIC ''timeout''
       \<in> set (snd (snd (generate_completion world_anthropic_down service_after_check demo_args)))
   \<and> \<not> isl (fst (generate_completion world_openai_down demo_service demo_args))
   \<and> fst (generate_completion world_openai_down demo_service demo_args)
       = attempt world_openai_down demo_args demo_service ANTHROPIC"
proof -
  note down = generate_fails_iff_healthy_exhausted
    [of world_anthropic_down service_after_check demo_args]
  note up = generate_fails_iff_healthy_exhausted [of world_openai_down demo_service demo_args]
  have all: "\<forall>p \<in> set (get_available_providers service_after_check).
      isl (attempt world_anthropic_down demo_args service_after_check p)"
    by (simp add: attempt_after_check)
  with down have f: "isl (fst (generate_completion world_anthropic_down service_after_check demo_args))"
    by blast
  have tr: "providers_to_try service_after_check (preferred_provider demo_args) = [ANTHROPIC]"
    by (simp add: service_after_check_eq llm_eval)
  from down f have "fst (generate_completion world_anthropic_down service_after_check demo_args)
       = Inl (all_failed (last_error_of world_anthropic_down demo_args service_after_check
               (providers_to_try service_after_check (preferred_provider demo_args)) None))"
    by blast
  then have msg: "fst (generate_completion world_anthropic_down service_after_check demo_args)
       = Inl ''All providers failed. Last error: timeout''"
    by (simp add: tr last_error_of_def attempt_after_check all_failed_def)
  from down f have "\<forall>p \<in> set (get_available_providers service_after_check).
      \<exists>e. attempt world_anthropic_down demo_args service_after_check p = Inl e
         \<and> ProviderFailed p e
             \<in> set (snd (snd (generate_completion world_anthropic_down service_after_check demo_args)))"
    by blast
  then have logged: "ProviderFailed ANTHROPIC ''timeout''
       \<in> set (snd (snd (generate_completion world_anthropic_down service_after_check demo_args)))"
    by (simp add: attempt_after_check)
  have "\<not> (\<forall>p \<in> set (get_available_providers demo_service).
      isl (attempt world_openai_down demo_args demo_service p))"
    by (simp add: attempt_outage available_demo_service)
  with up have s: "\<not> isl (fst (generate_completion world_openai_down demo_service demo_args))"
    by blast
  with up obtain p where
    "find (\<lambda>p. \<not> isl (attempt world_openai_down demo_args demo_service p))
       (providers_to_try demo_service (preferred_provider demo_args)) = Some p"
    "fst (generate_completion world_openai_down demo_service demo_args)
       = attempt world_openai_down demo_args demo_service p"
    by blast
  then have r: "fst (generate_completion world_openai_down demo_service demo_args)
       = attempt world_openai_down demo_args demo_service ANTHROPIC"
    by (simp add: attempt_outage)
  from f msg logged s r show ?thesis by blast
qed

text \<open>
  C2 as stated fails. After a health check during which OpenAI timed out, OpenAI is
  registered but marked unhealthy. A call in which Anthropic times out then fails as a
  whole although OpenAI was not tried in it, and OpenAI would have answered.
\<close>

theorem generate_fails_with_untried_provider:
  "isl (fst (generate_completion world_anthropic_down service_after_check demo_args))
   \<and> OPENAI \<in> fst ` set (providers service_after_check)
   \<and> Generating OPENAI
       \<notin> set (snd (snd (generate_completion world_anthropic_down service_after_check demo_args)))
   \<and> \<not> isl (attempt world_anthropic_down demo_args service_after_check OPENAI)"
proof -
  have "OPENAI \<in> fst ` set (providers service_after_check)"
    by (simp add: service_after_check_eq)
  then show ?thesis
    by (simp add: after_check_call attempt_after_check)
qed





section \<open>Properties of the research agent\<close>

lemma simulated_source_marker: "wr_source (simulated_source x) = ''llm_simulation''"
  by (cases x) (simp add: simulated_source_def)

lemma parse_simulated_marker:
  "e \<in> set (parse_simulated_research content) \<Longrightarrow> wr_source e = ''llm_simulation''"
  by (auto simp: parse_simulated_research_def simulated_source_marker)

lemma enumerate_snd: "snd ` set (enumerate n xs) = set xs"
  by (metis list.set_map map_snd_enumerate)

lemma parse_simulated_nonempty:
  "parse_simulated_research content \<noteq> []
     \<longleftrightarrow> (\<exists>section \<in> set (split content [newline, newline]). length section > 50)"
proof -
  have "parse_simulated_research content \<noteq> []
     \<longleftrightarrow> (\<exists>x \<in> set (enumerate 0 (split content [newline, newline])). length (snd x) > 50)"
    by (simp add: parse_simulated_research_def filter_empty_conv case_prod_unfold)
  also have "\<dots> \<longleftrightarrow> (\<exists>section \<in> snd ` set (enumerate 0 (split content [newline, newline])).
      length section > 50)"
    by blast
  finally show ?thesis
    by (simp only: enumerate_snd)
qed

lemma research_outcome_sources:
  "outcome (research_process_task st inp clock) = Inr r \<Longrightarrow>
   sources (research_data r) = [] \<and> sources_count r = 0"
  by (auto simp: research_process_task_def research_failed_def create_research_summary_def
      Let_def split: if_splits sum.splits)

lemma research_outcome_simulated:
  "outcome (research_process_task st inp clock) = Inr r \<Longrightarrow>
   \<exists>web. conduct_web_research st (search_hits inp) (simulated_reply inp) = Inr web"
  by (auto simp: research_process_task_def research_failed_def Let_def
      split: if_splits sum.splits)

lemma execute_task_succeeded:
  "fst (execute_task a task_id t0 run) = TaskSucceeded r d \<Longrightarrow> outcome run = Inr r"
  by (auto simp: execute_task_def Let_def split: sum.splits)

lemma demo_web:
  "parse_simulated_research demo_simulation
     = [simulated_source (0, ''Title: Tea through the ages. Tea has been drunk for thousands of years.'')]"
  by (simp add: parse_simulated_research_def demo_simulation_def split_def newline_def
      enumerate_eq_zip upt_rec)

lemma demo_run:
  "research_process_task demo_settings demo_inputs demo_clock =
     \<lparr>progress_updates = [(5, 0), (20, 1), (50, 2), (75, 3), (100, 4)],
      outcome = Inr demo_research, finished_at = 5\<rparr>"
proof -
  have lw: "lower ''Key Findings'' = ''key findings''"
    by code_simp
  have sp: "split ''Key Findings'' [newline] = [''Key Findings'']"
    by (simp add: split_def newline_def)
  have ex: "extract_key_findings ''Key Findings'' = []" "extract_statistics ''Key Findings'' = []"
    "extract_quotes ''Key Findings'' = []" "extract_trends ''Key Findings'' = []"
    by (simp_all add: extract_key_findings_def extract_statistics_def extract_quotes_def
        extract_trends_def sp lw)
  show ?thesis
    unfolding research_process_task_def demo_inputs_def
    by (simp add: conduct_web_research_def demo_settings_def truthy_def demo_web
        organize_findings_def create_research_summary_def ex calculate_quality_score_def
        demo_research_def demo_clock_def Let_def)
qed

lemma demo_execution:
  "fst (execute_task (BaseAgent_init ''research-agent'' 0) ''job-1-research'' 0
          (research_process_task demo_settings demo_inputs demo_clock))
     = TaskSucceeded demo_research 5"
  by (simp add: demo_run execute_task_def)

text \<open>
  C9, as the code has it. When no web-search backend is configured, a successful execution
  of the research agent returns a bundle whose source list is empty and whose source count
  is 0. The snippets were gathered by the simulation from the provider's reply; each of
  them carries the marker \<^verbatim>\<open>llm_simulation\<close> in its \<^verbatim>\<open>source\<close> field, and there is at
  least one exactly when some section of the reply, cut at blank lines, is longer than 50
  characters. They enter the bundle only through their number, in the quality score.
\<close>

theorem simulated_research_sources:
  assumes "\<not> truthy (SERPER_API_KEY st)" and "\<not> truthy (TAVILY_API_KEY st)"
    and "fst (execute_task a task_id t0 (research_process_task st inp clock)) = TaskSucceeded r d"
  shows "sources (research_data r) = [] \<and> sources_count r = 0
    \<and> (\<exists>content. simulated_reply inp = Inr content
          \<and> conduct_web_research st (search_hits inp) (simulated_reply inp)
              = Inr (parse_simulated_research content)
          \<and> (\<forall>e \<in> set (parse_simulated_research content). wr_source e = ''llm_simulation'')
          \<and> (parse_simulated_research content \<noteq> []
                \<longleftrightarrow> (\<exists>section \<in> set (split content [newline, newline]). length section > 50)))"
proof -
  from assms(3) have out: "outcome (research_process_task st inp clock) = Inr r"
    by (rule execute_task_succeeded)
  from research_outcome_simulated [OF out] obtain web where
    w: "conduct_web_research st (search_hits inp) (simulated_reply inp) = Inr web"
    by blast
  with assms(1,2) obtain content where c: "simulated_reply inp = Inr content"
    and "web = parse_simulated_research content"
    by (auto simp: conduct_web_research_def split: sum.splits)
  with w have "conduct_web_research st (search_hits inp) (simulated_reply inp)
      = Inr (parse_simulated_research content)"
    by simp
  with c research_outcome_sources [OF out] parse_simulated_marker parse_simulated_nonempty
  show ?thesis by blast
qed

theorem simulated_research_sources_witness:
  "\<not> truthy (SERPER_API_KEY demo_settings) \<and> \<not> truthy (TAVILY_API_KEY demo_settings)
   \<and> fst (execute_task (BaseAgent_init ''research-agent'' 0) ''job-1-research'' 0
            (research_process_task demo_settings demo_inputs demo_clock))
       = TaskSucceeded demo_research 5
   \<and> sources (research_data demo_research) = [] \<and> sources_count demo_research = 0"
proof -
  have k: "\<not> truthy (SERPER_API_KEY demo_settings)" "\<not> truthy (TAVILY_API_KEY demo_settings)"
    by (simp_all add: demo_settings_def truthy_def)
  from simulated_research_sources [OF k demo_execution] k demo_execution
  show ?thesis by blast
qed

text \<open>
  C9 as stated fails. With no web-search backend configured and a provider that answers
  every completion, the execution succeeds, the simulation gathers a snippet, and the
  source list of the returned bundle is empty.
\<close>

theorem research_bundle_has_no_sources:
  "\<not> truthy (SERPER_API_KEY demo_settings) \<and> \<not> truthy (TAVILY_API_KEY demo_settings)
   \<and> map_option (\<lambda>r. sources (research_data r))
        (task_value (fst (execute_task (BaseAgent_init ''research-agent'' 0) ''job-1-research'' 0
           (research_process_task demo_settings demo_inputs demo_clock)))) = Some []
   \<and> map_option length
        (case simulated_reply demo_inputs of
           Inl e \<Rightarrow> None
         | Inr content \<Rightarrow> Some (parse_simulated_research content)) = Some 1"
proof -
  have "map_option length
        (case simulated_reply demo_inputs of
           Inl e \<Rightarrow> None
         | Inr content \<Rightarrow> Some (parse_simulated_research content)) = Some 1"
    unfolding demo_inputs_def by (simp add: demo_web)
  moreover have "\<not> truthy (SERPER_API_KEY demo_settings)"
    "\<not> truthy (TAVILY_API_KEY demo_settings)"
    by (simp_all add: demo_settings_def truthy_def)
  moreover have "map_option (\<lambda>r. sources (research_data r))
        (task_value (fst (execute_task (BaseAgent_init ''research-agent'' 0) ''job-1-research'' 0
           (research_process_task demo_settings demo_inputs demo_clock)))) = Some []"
    by (simp add: demo_execution demo_research_def)
  ultimately show ?thesis by blast
qed

section \<open>Properties of the orchestrator\<close>

lemma dom_update_book_status:
  "dom (active_generations (update_book_status s b st p m now)) = dom (active_generations s)"
  "completed_books (update_book_status s b st p m now) = completed_books s"
  by (auto simp: update_book_status_def Let_def split: option.splits)

lemma status_update_book_status:
  "b \<in> dom (active_generations s) \<Longrightarrow>
   get_book_status (update_book_status s b st p m now) b = Some st"
  by (auto simp: update_book_status_def get_book_status_def Let_def split: option.splits)

lemma on_exception_nonempty: "on_exception s b e now \<noteq> []"
  by (simp add: on_exception_def Let_def split: option.splits)

lemma dom_on_exception:
  "dom (active_generations (last (on_exception s b e now))) = dom (active_generations s)"
  "completed_books (last (on_exception s b e now)) = completed_books s"
proof -
  define s1 where "s1 = update_book_status s b FAILED None (''Generation failed: '' @ e) now"
  have d: "dom (active_generations s1) = dom (active_generations s)"
    and c: "completed_books s1 = completed_books s"
    by (simp_all only: s1_def dom_update_book_status)
  have unf: "on_exception s b e now =
      (case active_generations s1 b of
         None \<Rightarrow> [s1]
       | Some g \<Rightarrow>
           [s1, s1\<lparr>active_generations := (active_generations s1)(b \<mapsto> g\<lparr>g_error := Some e\<rparr>)\<rparr>])"
    unfolding on_exception_def Let_def s1_def ..
  show "dom (active_generations (last (on_exception s b e now))) = dom (active_generations s)"
  proof (cases "active_generations s1 b")
    case None
    then show ?thesis by (simp add: unf d)
  next
    case (Some g)
    then have "insert b (dom (active_generations s1)) = dom (active_generations s1)"
      by auto
    with Some show ?thesis by (simp add: unf d)
  qed
  show "completed_books (last (on_exception s b e now)) = completed_books s"
    by (cases "active_generations s1 b") (simp_all add: unf c)
qed

lemma dom_generate_start:
  "dom (active_generations (last (generate_start s r now)))
     = insert (request_id r) (dom (active_generations s))"
  "completed_books (last (generate_start s r now)) = completed_books s"
  by (simp_all add: generate_start_def Let_def dom_update_book_status)

lemma dom_after_research:
  "dom (active_generations (last (after_research s r res now))) = dom (active_generations s)"
  "completed_books (last (after_research s r res now)) = completed_books s"
  by (simp_all add: after_research_def Let_def dom_update_book_status dom_on_exception
      split: task_result.splits)

lemma after_content_failed:
  "dom (active_generations (last (after_content s r rr (TaskFailed e) now))) = dom (active_generations s)"
  "completed_books (last (after_content s r rr (TaskFailed e) now)) = completed_books s"
  by (simp_all add: after_content_def dom_on_exception)

lemma after_content_absent:
  assumes "request_id r \<notin> dom (active_generations s)"
  shows "dom (active_generations (last (after_content s r rr res now))) = dom (active_generations s)"
    and "completed_books (last (after_content s r rr res now)) = completed_books s"
proof -
  define s2 where "s2 = update_book_status
      (update_book_status s (request_id r) REVIEWING (Some 85) ''Content generated, reviewing quality'' now)
      (request_id r) COMPLETED (Some 100) ''Book generation completed'' now"
  have d2: "dom (active_generations s2) = dom (active_generations s)"
    and c2: "completed_books s2 = completed_books s"
    by (simp_all only: s2_def dom_update_book_status)
  from assms d2 have none: "active_generations s2 (request_id r) = None"
    by auto
  show "dom (active_generations (last (after_content s r rr res now))) = dom (active_generations s)"
  proof (cases res)
    case (TaskFailed e)
    then show ?thesis by (simp add: after_content_failed)
  next
    case (TaskSucceeded c d)
    then show ?thesis
      using none unfolding after_content_def Let_def s2_def
      by (simp add: on_exception_nonempty dom_on_exception dom_update_book_status)
  qed
  show "completed_books (last (after_content s r rr res now)) = completed_books s"
  proof (cases res)
    case (TaskFailed e)
    then show ?thesis by (simp add: after_content_failed)
  next
    case (TaskSucceeded c d)
    then show ?thesis
      using none unfolding after_content_def Let_def s2_def
      by (simp add: on_exception_nonempty dom_on_exception dom_update_book_status)
  qed
qed

lemma after_content_present:
  assumes "request_id r \<in> dom (active_generations s)"
  shows "dom (active_generations (last (after_content s r rr (TaskSucceeded c d) now)))
           = dom (active_generations s) - {request_id r}"
    and "dom (completed_books (last (after_content s r rr (TaskSucceeded c d) now)))
           = insert (request_id r) (dom (completed_books s))"
proof -
  define s2 where "s2 = update_book_status
      (update_book_status s (request_id r) REVIEWING (Some 85) ''Content generated, reviewing quality'' now)
      (request_id r) COMPLETED (Some 100) ''Book generation completed'' now"
  have d2: "dom (active_generations s2) = dom (active_generations s)"
    and c2: "completed_books s2 = completed_books s"
    by (simp_all only: s2_def dom_update_book_status)
  from assms d2 obtain g where some: "active_generations s2 (request_id r) = Some g"
    by auto
  show "dom (active_generations (last (after_content s r rr (TaskSucceeded c d) now)))
           = dom (active_generations s) - {request_id r}"
    using some d2 unfolding after_content_def Let_def s2_def
    by auto
  show "dom (completed_books (last (after_content s r rr (TaskSucceeded c d) now)))
           = insert (request_id r) (dom (completed_books s))"
    using some c2 unfolding after_content_def Let_def s2_def
    by auto
qed

lemma dom_delete_book:
  "dom (active_generations (snd (delete_book s b))) = dom (active_generations s) - {b}"
  "dom (completed_books (snd (delete_book s b))) =
     (if b \<in> dom (active_generations s) then dom (completed_books s)
      else dom (completed_books s) - {b})"
  by (auto simp: delete_book_def)

lemma dom_cancel_generation:
  "dom (active_generations (snd (cancel_generation s b))) = dom (active_generations s)"
  "completed_books (snd (cancel_generation s b)) = completed_books s"
  by (auto simp: cancel_generation_def split: option.splits)

lemma orch_inv_init: "orch_inv orchestrator_init"
  by (simp add: orch_inv_def orchestrator_init_def BookGenerationService_init_def
      active_ids_def completed_ids_def)

lemma task_request_id:
  "orch_inv x \<Longrightarrow> tasks x b = Some pc \<Longrightarrow> request_id (pc_request pc) = b"
  unfolding orch_inv_def by blast

lemma orch_inv_step: "orch_inv x \<Longrightarrow> orch_inv (step ev x)"
proof (cases ev)
  case (CreateBook request now)
  assume "orch_inv x"
  with CreateBook show ?thesis
    by (auto simp: orch_inv_def active_ids_def completed_ids_def dom_generate_start)
next
  case (ResearchReturns b research now)
  assume inv: "orch_inv x"
  show ?thesis
  proof (cases "tasks x b")
    case None
    with inv ResearchReturns show ?thesis by simp
  next
    case (Some pc)
    show ?thesis
    proof (cases pc)
      case (AwaitContent request r)
      with inv ResearchReturns Some show ?thesis by simp
    next
      case (AwaitResearch request)
      from task_request_id [OF inv Some] AwaitResearch have rb: "request_id request = b"
        by simp
      from inv ResearchReturns Some AwaitResearch rb show ?thesis
        by (auto simp: orch_inv_def active_ids_def completed_ids_def dom_after_research
            split: task_result.splits if_splits)
    qed
  qed
next
  case (ContentReturns b content now)
  assume inv: "orch_inv x"
  show ?thesis
  proof (cases "tasks x b")
    case None
    with inv ContentReturns show ?thesis by simp
  next
    case (Some pc)
    show ?thesis
    proof (cases pc)
      case (AwaitResearch request)
      with inv ContentReturns Some show ?thesis by simp
    next
      case (AwaitContent request r)
      from task_request_id [OF inv Some] AwaitContent have rb: "request_id request = b"
        by simp
      show ?thesis
      proof (cases "b \<in> dom (active_generations (service x))")
        case False
        with inv ContentReturns Some AwaitContent rb show ?thesis
          by (auto simp: orch_inv_def active_ids_def completed_ids_def after_content_absent
              split: if_splits)
      next
        case True
        show ?thesis
        proof (cases content)
          case (TaskFailed e)
          with inv ContentReturns Some AwaitContent rb show ?thesis
            by (auto simp: orch_inv_def active_ids_def completed_ids_def after_content_failed
                split: if_splits)
        next
          case (TaskSucceeded c d)
          with inv ContentReturns Some AwaitContent rb True show ?thesis
            by (auto simp: orch_inv_def active_ids_def completed_ids_def after_content_present
                split: if_splits)
        qed
      qed
    qed
  qed
next
  case (DeleteBook b)
  assume "orch_inv x"
  with DeleteBook show ?thesis
    by (auto simp: orch_inv_def active_ids_def completed_ids_def dom_delete_book
        split: if_splits)
next
  case (CancelGeneration b)
  assume "orch_inv x"
  with CancelGeneration show ?thesis
    by (auto simp: orch_inv_def active_ids_def completed_ids_def dom_cancel_generation)
qed

lemma orch_inv_fold: "orch_inv x \<Longrightarrow> orch_inv (fold step evs x)"
  by (induction evs arbitrary: x) (simp_all add: orch_inv_step)

lemma orch_inv_after_events: "orch_inv (after_events evs)"
  by (simp add: after_events_def orch_inv_fold orch_inv_init)

lemma ids_CreateBook:
  "active_ids (step (CreateBook request now) x) =
     (if request_id request \<in> set (issued x) then active_ids x
      else insert (request_id request) (active_ids x))"
  "completed_ids (step (CreateBook request now) x) = completed_ids x"
  by (simp_all add: active_ids_def completed_ids_def dom_generate_start)

lemma ids_ResearchReturns:
  "active_ids (step (ResearchReturns b research now) x) = active_ids x"
  "completed_ids (step (ResearchReturns b research now) x) = completed_ids x"
  by (simp_all add: active_ids_def completed_ids_def dom_after_research
      split: option.splits task_pc.splits)

lemma ids_DeleteBook:
  "active_ids (step (DeleteBook b) x) = active_ids x - {b}"
  "completed_ids (step (DeleteBook b) x) =
     (if b \<in> active_ids x then completed_ids x else completed_ids x - {b})"
  by (simp_all add: active_ids_def completed_ids_def dom_delete_book)

lemma ids_CancelGeneration:
  "active_ids (step (CancelGeneration b) x) = active_ids x"
  "completed_ids (step (CancelGeneration b) x) = completed_ids x"
  by (simp_all add: active_ids_def completed_ids_def dom_cancel_generation)

lemma ids_ContentReturns:
  assumes inv: "orch_inv x"
  shows "active_ids (step (ContentReturns b content now) x) =
           (if completes x b content then active_ids x - {b} else active_ids x)"
    and "completed_ids (step (ContentReturns b content now) x) =
           (if completes x b content then insert b (completed_ids x) else completed_ids x)"
proof -
  have "active_ids (step (ContentReturns b content now) x) =
           (if completes x b content then active_ids x - {b} else active_ids x)
        \<and> completed_ids (step (ContentReturns b content now) x) =
           (if completes x b content then insert b (completed_ids x) else completed_ids x)"
  proof (cases "tasks x b")
    case None
    then show ?thesis by (simp add: completes_def)
  next
    case (Some pc)
    show ?thesis
    proof (cases pc)
      case (AwaitResearch request)
      with Some show ?thesis by (simp add: completes_def)
    next
      case (AwaitContent request r)
      from task_request_id [OF inv Some] AwaitContent have rb: "request_id request = b"
        by simp
      show ?thesis
      proof (cases "b \<in> dom (active_generations (service x))")
        case False
        with Some AwaitContent rb show ?thesis
          by (simp add: completes_def active_ids_def completed_ids_def after_content_absent)
      next
        case True
        show ?thesis
        proof (cases content)
          case (TaskFailed e)
          with Some AwaitContent rb show ?thesis
            by (simp add: completes_def active_ids_def completed_ids_def after_content_failed)
        next
          case (TaskSucceeded c d)
          with Some AwaitContent rb True show ?thesis
            by (simp add: completes_def active_ids_def completed_ids_def after_content_present)
        qed
      qed
    qed
  qed
  then show "active_ids (step (ContentReturns b content now) x) =
           (if completes x b content then active_ids x - {b} else active_ids x)"
    and "completed_ids (step (ContentReturns b content now) x) =
           (if completes x b content then insert b (completed_ids x) else completed_ids x)"
    by simp_all
qed

lemma moved_iff:
  assumes inv: "orch_inv x"
  shows "moved b x ev \<longleftrightarrow> (\<exists>content now. ev = ContentReturns b content now \<and> completes x b content)"
proof (cases ev)
  case (ContentReturns b' content now)
  have "b' \<notin> completed_ids x" if "completes x b' content"
    using that inv by (auto simp: completes_def orch_inv_def)
  with ContentReturns show ?thesis
    by (auto simp: moved_def ids_ContentReturns [OF inv] simp del: step.simps split: if_splits)
qed (auto simp: moved_def ids_CreateBook ids_ResearchReturns ids_DeleteBook ids_CancelGeneration
      simp del: step.simps)

lemma completes_terminal:
  "completes x b content \<Longrightarrow> terminal_success b (ContentReturns b content now)"
  by (auto simp: completes_def terminal_success_def)

lemma moved_facts:
  assumes inv: "orch_inv x" and mv: "moved b x ev"
  shows "terminal_success b ev" "b \<in> active_ids x" "b \<notin> active_ids (step ev x)"
    "tasks (step ev x) b = None" "b \<in> set (issued (step ev x))"
proof -
  from mv inv obtain content now where ev: "ev = ContentReturns b content now"
    and c: "completes x b content"
    by (auto simp: moved_iff)
  show "terminal_success b ev" using ev c by (simp add: completes_terminal)
  show "b \<in> active_ids x" using c by (simp add: completes_def)
  show "b \<notin> active_ids (step ev x)"
    using ev c by (simp add: ids_ContentReturns [OF inv] del: step.simps)
  from c obtain request r where t: "tasks x b = Some (AwaitContent request r)"
    by (auto simp: completes_def)
  show "tasks (step ev x) b = None" using ev t by simp
  from inv t have "b \<in> set (issued x)" by (auto simp: orch_inv_def)
  then show "b \<in> set (issued (step ev x))" using ev t by simp
qed

lemma left_active:
  assumes inv: "orch_inv x" and "b \<in> active_ids x" "b \<notin> active_ids (step ev x)"
  shows "ev = DeleteBook b \<or> moved b x ev"
proof (cases ev)
  case (ContentReturns b' content now)
  with assms show ?thesis
    by (auto simp: moved_iff ids_ContentReturns [OF inv] simp del: step.simps split: if_splits)
qed (use assms in \<open>auto simp: ids_CreateBook ids_ResearchReturns ids_DeleteBook
      ids_CancelGeneration simp del: step.simps split: if_splits\<close>)

lemma left_completed:
  assumes inv: "orch_inv x" and "b \<in> completed_ids x" "b \<notin> completed_ids (step ev x)"
  shows "ev = DeleteBook b"
proof (cases ev)
  case (ContentReturns b' content now)
  with assms show ?thesis
    by (auto simp: ids_ContentReturns [OF inv] simp del: step.simps split: if_splits)
qed (use assms in \<open>auto simp: ids_CreateBook ids_ResearchReturns ids_DeleteBook
      ids_CancelGeneration simp del: step.simps split: if_splits\<close>)

lemma finished_stays:
  assumes "tasks x b = None" "b \<in> set (issued x)"
  shows "tasks (step ev x) b = None \<and> b \<in> set (issued (step ev x))"
  using assms
  by (cases ev) (auto split: option.splits task_pc.splits task_result.splits)

lemma finished_not_moved:
  assumes "orch_inv x" "tasks x b = None"
  shows "\<not> moved b x ev"
  using assms by (auto simp: moved_iff completes_def)

lemma moves_finished:
  "orch_inv x \<Longrightarrow> tasks x b = None \<Longrightarrow> b \<in> set (issued x) \<Longrightarrow> moves b x evs = 0"
proof (induction evs arbitrary: x)
  case Nil
  then show ?case by simp
next
  case (Cons ev evs)
  from Cons.prems have "\<not> moved b x ev" by (simp add: finished_not_moved)
  moreover have "moves b (step ev x) evs = 0"
    using Cons.prems finished_stays [of x b ev] by (intro Cons.IH) (simp_all add: orch_inv_step)
  ultimately show ?case by simp
qed

lemma moves_le_1: "orch_inv x \<Longrightarrow> moves b x evs \<le> 1"
proof (induction evs arbitrary: x)
  case Nil
  then show ?case by simp
next
  case (Cons ev evs)
  show ?case
  proof (cases "moved b x ev")
    case True
    from moved_facts(4,5) [OF Cons.prems True] orch_inv_step [OF Cons.prems, of ev]
    have "moves b (step ev x) evs = 0" by (simp add: moves_finished)
    with True show ?thesis by simp
  next
    case False
    with Cons.IH [OF orch_inv_step [OF Cons.prems, of ev]] show ?thesis by simp
  qed
qed

lemma demo_state:
  "tasks (after_events demo_events) ''job-1'' = Some (AwaitContent demo_request demo_research)"
  "''job-1'' \<in> active_ids (after_events demo_events)"
  by (simp_all add: after_events_def demo_events_def orchestrator_init_def
      BookGenerationService_init_def generate_start_def after_research_def
      update_book_status_def Let_def demo_request_def active_ids_def)

lemma demo_state2:
  "''job-1'' \<in> completed_ids (after_events (demo_events @ [demo_completion]))"
  "''job-1'' \<notin> active_ids (after_events (demo_events @ [demo_completion]))"
  by (simp_all add: after_events_def demo_events_def demo_completion_def orchestrator_init_def
      BookGenerationService_init_def generate_start_def after_research_def after_content_def
      update_book_status_def Let_def demo_request_def active_ids_def completed_ids_def)

text \<open>
  C1, as the code has it. On the success path of a run of \<^verbatim>\<open>generate_book_async\<close> (both
  agents succeed, nothing else is scheduled in between), the statuses of the job are, in
  order, Pending, Researching, GeneratingOutline, Reviewing, Completed, from any state of
  the tables: the sequence moves strictly forward in the lifecycle and does not skip
  Researching. WritingContent is not among them.
\<close>

theorem success_path_status_sequence:
  "status_sequence (request_id request)
     (generate_book_async s request (TaskSucceeded r d1) (TaskSucceeded c d2) t0 t1 t2)
   = [PENDING, RESEARCHING, GENERATING_OUTLINE, REVIEWING, COMPLETED]
   \<and> sorted_wrt (\<lambda>a b. stage_rank a < stage_rank b)
       (status_sequence (request_id request)
          (generate_book_async s request (TaskSucceeded r d1) (TaskSucceeded c d2) t0 t1 t2))"
proof -
  have "status_sequence (request_id request)
     (generate_book_async s request (TaskSucceeded r d1) (TaskSucceeded c d2) t0 t1 t2)
   = [PENDING, RESEARCHING, GENERATING_OUTLINE, REVIEWING, COMPLETED]"
    by (simp add: status_sequence_def generate_book_async_def generate_start_def
        after_research_def after_content_def update_book_status_def get_book_status_def
        new_generation_def Let_def List.map_filter_simps)
  then show ?thesis by simp
qed

text \<open>
  C1 as stated fails: the successful run of the demo job never has the status
  WritingContent, so its status sequence is not the six-stage one.
\<close>

theorem success_path_skips_writing_content:
  "status_sequence ''job-1''
     (generate_book_async BookGenerationService_init demo_request
        (TaskSucceeded demo_research 50) (TaskSucceeded demo_content 600) 0 50 650)
     \<noteq> [PENDING, RESEARCHING, GENERATING_OUTLINE, WRITING_CONTENT, REVIEWING, COMPLETED]
   \<and> WRITING_CONTENT \<notin> set (status_sequence ''job-1''
        (generate_book_async BookGenerationService_init demo_request
           (TaskSucceeded demo_research 50) (TaskSucceeded demo_content 600) 0 50 650))"
  by (simp add: status_sequence_def generate_book_async_def generate_start_def
      after_research_def after_content_def update_book_status_def get_book_status_def
      new_generation_def Let_def List.map_filter_simps demo_request_def
      BookGenerationService_init_def)

text \<open>
  C6. In every state the orchestrator reaches between two events (job creations with
  fresh ids, agent returns, deletions and cancellations, in any order), no job id is in
  both tables. Over a whole run a job enters the completed table at most once; a step
  that puts it there is the successful return of its content agent, and takes it out of
  the active table where it was; that return does move the job whenever its record is
  still active. A job leaves the active table only by that move or by its deletion,
  leaves the completed table only by its deletion, and \<^verbatim>\<open>delete_book\<close> finds a job
  that either table holds and leaves it in neither.
\<close>

theorem job_tables_invariant:
  "active_ids (after_events evs) \<inter> completed_ids (after_events evs) = {}
   \<and> moves book_id orchestrator_init evs \<le> 1
   \<and> (moved book_id (after_events evs) ev \<longrightarrow>
        terminal_success book_id ev
        \<and> book_id \<in> active_ids (after_events evs)
        \<and> book_id \<notin> active_ids (step ev (after_events evs)))
   \<and> (tasks (after_events evs) book_id = Some (AwaitContent request r)
        \<and> book_id \<in> active_ids (after_events evs) \<longrightarrow>
        moved book_id (after_events evs) (ContentReturns book_id (TaskSucceeded c d) now))
   \<and> (book_id \<in> active_ids (after_events evs)
        \<and> book_id \<notin> active_ids (step ev (after_events evs)) \<longrightarrow>
        ev = DeleteBook book_id \<or> moved book_id (after_events evs) ev)
   \<and> (book_id \<in> completed_ids (after_events evs)
        \<and> book_id \<notin> completed_ids (step ev (after_events evs)) \<longrightarrow>
        ev = DeleteBook book_id)
   \<and> (book_id \<in> active_ids (after_events evs) \<union> completed_ids (after_events evs) \<longrightarrow>
        fst (delete_book (service (after_events evs)) book_id)
        \<and> book_id \<notin> active_ids (step (DeleteBook book_id) (after_events evs))
        \<and> book_id \<notin> completed_ids (step (DeleteBook book_id) (after_events evs)))"
proof -
  define x where "x = after_events evs"
  have inv: "orch_inv x"
    unfolding x_def by (rule orch_inv_after_events)
  have disj: "active_ids x \<inter> completed_ids x = {}"
    using inv by (simp add: orch_inv_def)
  have once: "moves book_id orchestrator_init evs \<le> 1"
    by (rule moves_le_1 [OF orch_inv_init])
  have mv: "moved book_id x ev \<longrightarrow>
        terminal_success book_id ev \<and> book_id \<in> active_ids x \<and> book_id \<notin> active_ids (step ev x)"
    using moved_facts(1,2,3) [OF inv] by blast
  have fin: "tasks x book_id = Some (AwaitContent request r) \<and> book_id \<in> active_ids x \<longrightarrow>
        moved book_id x (ContentReturns book_id (TaskSucceeded c d) now)"
    by (auto simp: moved_iff [OF inv] completes_def)
  have la: "book_id \<in> active_ids x \<and> book_id \<notin> active_ids (step ev x) \<longrightarrow>
        ev = DeleteBook book_id \<or> moved book_id x ev"
    using left_active [OF inv] by blast
  have lc: "book_id \<in> completed_ids x \<and> book_id \<notin> completed_ids (step ev x) \<longrightarrow>
        ev = DeleteBook book_id"
    using left_completed [OF inv] by blast
  have del: "book_id \<in> active_ids x \<union> completed_ids x \<longrightarrow>
        fst (delete_book (service x) book_id)
        \<and> book_id \<notin> active_ids (step (DeleteBook book_id) x)
        \<and> book_id \<notin> completed_ids (step (DeleteBook book_id) x)"
  proof
    assume h: "book_id \<in> active_ids x \<union> completed_ids x"
    then have "fst (delete_book (service x) book_id)"
      by (auto simp: delete_book_def active_ids_def completed_ids_def)
    moreover have "book_id \<notin> active_ids (step (DeleteBook book_id) x)"
      by (simp add: ids_DeleteBook del: step.simps)
    moreover have "book_id \<notin> completed_ids (step (DeleteBook book_id) x)"
      using disj h by (auto simp: ids_DeleteBook simp del: step.simps)
    ultimately show "fst (delete_book (service x) book_id)
        \<and> book_id \<notin> active_ids (step (DeleteBook book_id) x)
        \<and> book_id \<notin> completed_ids (step (DeleteBook book_id) x)"
      by simp
  qed
  from disj once mv fin la lc del show ?thesis
    unfolding x_def by blast
qed

theorem job_tables_invariant_witness:
  "tasks (after_events demo_events) ''job-1'' = Some (AwaitContent demo_request demo_research)
   \<and> ''job-1'' \<in> active_ids (after_events demo_events)
   \<and> moved ''job-1'' (after_events demo_events) demo_completion
   \<and> terminal_success ''job-1'' demo_completion
   \<and> ''job-1'' \<notin> active_ids (step demo_completion (after_events demo_events))
   \<and> active_ids (after_events demo_events) \<inter> completed_ids (after_events demo_events) = {}
   \<and> moves ''job-1'' orchestrator_init (demo_events @ [demo_completion]) \<le> 1
   \<and> ''job-1'' \<in> completed_ids (after_events (demo_events @ [demo_completion]))
   \<and> fst (delete_book (service (after_events (demo_events @ [demo_completion]))) ''job-1'')
   \<and> ''job-1'' \<notin> completed_ids
         (step (DeleteBook ''job-1'') (after_events (demo_events @ [demo_completion])))"
proof -
  note first = job_tables_invariant [where evs = demo_events and book_id = "''job-1''"
      and ev = demo_completion and request = demo_request and r = demo_research
      and c = demo_content and d = 600 and now = 650]
  note second = job_tables_invariant [where evs = "demo_events @ [demo_completion]"
      and book_id = "''job-1''" and ev = "DeleteBook ''job-1''"]
  have mv: "moved ''job-1'' (after_events demo_events) demo_completion"
    using first demo_state unfolding demo_completion_def by blast
  have once: "moves ''job-1'' orchestrator_init (demo_events @ [demo_completion]) \<le> 1"
    using second by blast
  show ?thesis
    using first second mv once demo_state demo_state2 by blast
qed

text \<open>
  C10. \<^verbatim>\<open>_update_book_status\<close> for a job id that the active table does not hold returns
  the service state it was given: both tables and every record in them are unchanged.
\<close>

theorem update_book_status_absent:
  "book_id \<notin> dom (active_generations s) \<Longrightarrow>
   update_book_status s book_id status progress message now = s"
  by (auto simp: update_book_status_def split: option.splits)

theorem update_book_status_absent_witness:
  "''job-2'' \<notin> dom (active_generations (service (after_events demo_events)))
   \<and> ''job-1'' \<in> dom (active_generations (service (after_events demo_events)))
   \<and> update_book_status (service (after_events demo_events)) ''job-2'' COMPLETED (Some 100)
         ''Book generation completed'' 700 = service (after_events demo_events)"
proof -
  have h: "''job-2'' \<notin> dom (active_generations (service (after_events demo_events)))"
    by (simp add: after_events_def demo_events_def orchestrator_init_def
        BookGenerationService_init_def generate_start_def after_research_def
        update_book_status_def Let_def demo_request_def)
  have "''job-1'' \<in> dom (active_generations (service (after_events demo_events)))"
    using demo_state(2) by (simp add: active_ids_def)
  with update_book_status_absent [OF h] h show ?thesis by simp
qed

text \<open>
  C7. The score \<^verbatim>\<open>_perform_quality_review\<close> computes is the function of the artifact
  that the specification describes: 0.7, plus 0.15 for at least 15000 words or else 0.1
  for at least 8000, plus 0.1 for 5 to 12 chapters, plus 0.05 when introduction, chapters
  and conclusion are all non-empty, capped at 1; it lies between 0.7 and 1.
\<close>

theorem quality_review_matches_spec:
  "perform_quality_review c = quality_score_spec (cr_book_content c)
   \<and> 0.7 \<le> perform_quality_review c \<and> perform_quality_review c \<le> 1"
  by (simp add: perform_quality_review_def quality_score_spec_def Let_def)


end
